theory Spec2Isabelle
  imports Complex_Main "HOL-Library.FSet"
begin

section \<open>Python values, dictionaries and exceptions\<close>

text \<open>
  The scheduler (\<^verbatim>\<open>app/services/scheduler.py\<close>) and the mail adapter
  (\<^verbatim>\<open>app/services/email_service.py\<close>) work on task rows as the store's JSON
  decoder delivers them: dictionaries from field names to scalar values. A field can
  hold \<^verbatim>\<open>None\<close>, a boolean, an integer or a string; the model keeps the four,
  because the code's behaviour (truthiness, \<^verbatim>\<open>in\<close>, \<^verbatim>\<open>.replace\<close>,
  \<^verbatim>\<open>.upper\<close>) differs between them.
\<close>

datatype jval = JNull | JBool bool | JInt int | JStr string

type_synonym dict = "string \<rightharpoonup> jval"

text \<open>The subclasses of \<^verbatim>\<open>Exception\<close> that the modelled statements raise.\<close>

datatype exn = KeyError | TypeError | ValueError | AttributeError | HTTPError | SMTPException

text \<open>Truthiness, as \<^verbatim>\<open>if x:\<close> and \<^verbatim>\<open>not x\<close> test it.\<close>

fun truthy :: "jval \<Rightarrow> bool" where
  "truthy JNull = False"
| "truthy (JBool b) = b"
| "truthy (JInt n) = (n \<noteq> 0)"
| "truthy (JStr s) = (s \<noteq> [])"

text \<open>\<^verbatim>\<open>d.get(k)\<close>: \<^verbatim>\<open>None\<close> for a missing key.\<close>

definition dict_get :: "dict \<Rightarrow> string \<Rightarrow> jval" where
  "dict_get d k = (case d k of None \<Rightarrow> JNull | Some v \<Rightarrow> v)"

text \<open>\<^verbatim>\<open>d[k]\<close>: \<^verbatim>\<open>KeyError\<close> for a missing key.\<close>

definition dict_item :: "dict \<Rightarrow> string \<Rightarrow> exn + jval" where
  "dict_item d k = (case d k of None \<Rightarrow> Inl KeyError | Some v \<Rightarrow> Inr v)"

text \<open>\<^verbatim>\<open>str(x)\<close>, as an f-string formats a value.\<close>

definition digit_char :: "nat \<Rightarrow> char" where
  "digit_char d = char_of (d + 48)"

fun str_nat :: "nat \<Rightarrow> string" where
  "str_nat n = (if n < 10 then [digit_char n] else str_nat (n div 10) @ [digit_char (n mod 10)])"

declare str_nat.simps [simp del]

fun py_str :: "jval \<Rightarrow> string" where
  "py_str JNull = ''None''"
| "py_str (JBool b) = (if b then ''True'' else ''False'')"
| "py_str (JInt n) = (if n < 0 then CHR ''-'' # str_nat (nat (- n)) else str_nat (nat n))"
| "py_str (JStr s) = s"

text \<open>\<^verbatim>\<open>s.replace('Z', '+00:00')\<close>: every \<^verbatim>\<open>Z\<close> becomes \<^verbatim>\<open>+00:00\<close>.\<close>

definition replace_Z :: "string \<Rightarrow> string" where
  "replace_Z s = concat (map (\<lambda>c. if c = CHR ''Z'' then ''+00:00'' else [c]) s)"

section \<open>Points in time\<close>

text \<open>
  A \<^verbatim>\<open>datetime\<close> is its wall-clock reading in microseconds from a fixed origin and
  an optional UTC offset (\<^verbatim>\<open>tzinfo\<close>). \<^verbatim>\<open>replace(tzinfo=None)\<close> drops the
  offset and keeps the wall-clock fields. Subtracting two naive datetimes gives a
  \<^verbatim>\<open>timedelta\<close>, a whole number of microseconds.

  \<^verbatim>\<open>total_seconds() / 3600\<close> is computed in binary floating point by the program and
  in exact rational arithmetic here. The two agree on every comparison the scheduler
  makes: a \<^verbatim>\<open>timedelta\<close> is a whole number of microseconds, at each of the six
  bounds (0.9 h, 1.1 h, 0.08 h and their negatives) the floating-point quotient is the
  very double the literal denotes, one microsecond to either side it is off by about
  \<open>3 \<times> 10\<^sup>-\<^sup>1\<^sup>0\<close>, and correctly rounded division is monotone.
\<close>

record datetime =
  wall :: int
  tzinfo :: "int option"

definition total_seconds :: "int \<Rightarrow> rat" where
  "total_seconds us = of_int us / 10 ^ 6"

section \<open>The world outside the process\<close>

text \<open>
  What the pass reads from outside: the clock, the library parser
  \<^verbatim>\<open>datetime.fromisoformat\<close> (\<open>None\<close> stands for its \<^verbatim>\<open>ValueError\<close>), the
  store's answer to the task query, and, for the iteration with index \<open>i\<close> of the task
  loop, the answers of the two HTTP requests of \<^verbatim>\<open>_get_user_email\<close> and the outcome
  of the SMTP conversation (\<open>None\<close>: delivered, \<open>Some e\<close>: it raised \<open>e\<close>). An iteration
  makes each of these calls at most once, so indexing the answers by iteration loses
  no behaviour. \<open>sender_email\<close> and \<open>sender_password\<close> are the mail adapter's
  configuration.
\<close>

datatype json_body = Rows "dict list" | Object dict

record http_response =
  status_code :: nat
  json :: "exn + json_body"

text \<open>\<^verbatim>\<open>if profiles:\<close> on a decoded body: an empty list or object is falsy.\<close>

fun body_truthy :: "json_body \<Rightarrow> bool" where
  "body_truthy (Rows rs) = (rs \<noteq> [])"
| "body_truthy (Object d) = (d \<noteq> Map.empty)"

text \<open>\<^verbatim>\<open>user_data.get("email")\<close>: a list has no \<^verbatim>\<open>get\<close>.\<close>

fun body_get :: "json_body \<Rightarrow> string \<Rightarrow> exn + jval" where
  "body_get (Rows rs) k = Inl AttributeError"
| "body_get (Object d) k = Inr (dict_get d k)"

record world =
  now :: int
  fromisoformat :: "string \<Rightarrow> datetime option"
  db_query :: "exn + dict list"
  http_profiles :: "nat \<Rightarrow> exn + http_response"
  http_auth_user :: "nat \<Rightarrow> exn + http_response"
  smtp :: "nat \<Rightarrow> exn option"
  sender_email :: "string option"
  sender_password :: "string option"

section \<open>The mail adapter\<close>

text \<open>
  \<^verbatim>\<open>EmailService.send_task_reminder\<close>. The HTML text itself is not modelled, only
  the statements that build it, in the order the f-strings evaluate them, each with the
  exception it can raise.
\<close>

definition falsy_setting :: "string option \<Rightarrow> bool" where
  "falsy_setting v = (case v of None \<Rightarrow> True | Some s \<Rightarrow> s = [])"

text \<open>\<^verbatim>\<open>msg['Subject'] = f"... {task['title']}"\<close>\<close>

definition subject_line :: "dict \<Rightarrow> exn + string" where
  "subject_line task =
     (case dict_item task ''title'' of
        Inl e \<Rightarrow> Inl e
      | Inr t \<Rightarrow> Inr (''Task Reminder: '' @ py_str t))"

text \<open>
  \<^verbatim>\<open>due_date = datetime.fromisoformat(task['due_date'].replace('Z', '+00:00'))
      if task.get('due_date') else None\<close>
\<close>

definition body_due_date :: "(string \<Rightarrow> datetime option) \<Rightarrow> dict \<Rightarrow> exn + datetime option" where
  "body_due_date parse task =
     (if truthy (dict_get task ''due_date'') then
        (case dict_item task ''due_date'' of
           Inl e \<Rightarrow> Inl e
         | Inr (JStr s) \<Rightarrow>
             (case parse (replace_Z s) of
                None \<Rightarrow> Inl ValueError
              | Some d \<Rightarrow> Inr (Some d))
         | Inr _ \<Rightarrow> Inl AttributeError)
      else Inr None)"

text \<open>
  The HTML f-string: \<^verbatim>\<open>'OVERDUE' in task['title']\<close> needs a string title,
  \<^verbatim>\<open>task['priority']\<close> a present key and \<^verbatim>\<open>.upper()\<close> a string priority.
\<close>

definition html_body :: "dict \<Rightarrow> exn + unit" where
  "html_body task =
     (case dict_item task ''title'' of
        Inl e \<Rightarrow> Inl e
      | Inr (JStr t) \<Rightarrow>
          (case dict_item task ''priority'' of
             Inl e \<Rightarrow> Inl e
           | Inr (JStr p) \<Rightarrow> Inr ()
           | Inr _ \<Rightarrow> Inl AttributeError)
      | Inr _ \<Rightarrow> Inl TypeError)"

text \<open>The \<^verbatim>\<open>try\<close> block: build the message, then talk to the SMTP server.\<close>

definition send_try_block :: "world \<Rightarrow> nat \<Rightarrow> jval \<Rightarrow> dict \<Rightarrow> exn + bool" where
  "send_try_block w i recipient_email task =
     (case subject_line task of
        Inl e \<Rightarrow> Inl e
      | Inr subject \<Rightarrow>
     (case body_due_date (fromisoformat w) task of
        Inl e \<Rightarrow> Inl e
      | Inr due_date \<Rightarrow>
     (case html_body task of
        Inl e \<Rightarrow> Inl e
      | Inr html \<Rightarrow>
     (case smtp w i of
        Some e \<Rightarrow> Inl e
      | None \<Rightarrow> Inr True))))"

definition send_task_reminder :: "world \<Rightarrow> nat \<Rightarrow> jval \<Rightarrow> dict \<Rightarrow> exn + bool" where
  "send_task_reminder w i recipient_email task =
     (if falsy_setting (sender_email w) \<or> falsy_setting (sender_password w) then Inr False
      else (case send_try_block w i recipient_email task of
              Inl e \<Rightarrow> Inr False
            | Inr r \<Rightarrow> Inr r))"

section \<open>The reminder scheduler\<close>

text \<open>
  Effects are recorded in a trace. \<open>GetUserEmail i uid\<close>: iteration \<open>i\<close> called
  \<^verbatim>\<open>_get_user_email(uid)\<close>. \<open>SendMail i key to a task ok\<close>: iteration \<open>i\<close> called the
  mail adapter for the reminder \<open>key\<close> with recipient \<open>to\<close> and the dictionary object at
  address \<open>a\<close>, whose content was \<open>task\<close>, and the adapter returned \<open>ok\<close>. \<open>DbCall op\<close>:
  a call of the store adapter (\<^verbatim>\<open>app/services/database.py\<close>).
\<close>

datatype db_op = Query | Insert | Update | Delete | Count

datatype event =
    DbCall db_op
  | GetUserEmail nat jval
  | SendMail nat string jval nat dict bool

text \<open>
  Task dictionaries are objects: the loop variable and \<^verbatim>\<open>overdue_task\<close> are
  references, and \<^verbatim>\<open>overdue_task['title'] = ...\<close> writes through one. The state of a
  pass therefore has a heap of dictionaries with an allocation pointer, beside
  \<^verbatim>\<open>self.sent_reminders\<close>, the local \<^verbatim>\<open>reminder_sent_count\<close> and the trace.
\<close>

record pass_state =
  heap :: "nat \<Rightarrow> dict"
  next_addr :: nat
  sent_reminders :: "string fset"
  reminder_sent_count :: nat
  trace :: "event list"

definition emit :: "event \<Rightarrow> pass_state \<Rightarrow> pass_state" where
  "emit ev s = s\<lparr>trace := trace s @ [ev]\<rparr>"

text \<open>\<^verbatim>\<open>TaskScheduler._get_user_email\<close>: the \<^verbatim>\<open>try\<close> block returns a dictionary or
  falls through (\<open>None\<close>); the function then returns \<^verbatim>\<open>{}\<close>.\<close>

definition get_user_email_try :: "world \<Rightarrow> nat \<Rightarrow> jval \<Rightarrow> exn + dict option" where
  "get_user_email_try w i user_id =
     (case http_profiles w i of
        Inl e \<Rightarrow> Inl e
      | Inr response \<Rightarrow>
          if status_code response = 200 then
            (case json response of
               Inl e \<Rightarrow> Inl e
             | Inr profiles \<Rightarrow>
                 if body_truthy profiles then
                   (case http_auth_user w i of
                      Inl e \<Rightarrow> Inl e
                    | Inr auth_response \<Rightarrow>
                        if status_code auth_response = 200 then
                          (case json auth_response of
                             Inl e \<Rightarrow> Inl e
                           | Inr user_data \<Rightarrow>
                               (case body_get user_data ''email'' of
                                  Inl e \<Rightarrow> Inl e
                                | Inr email \<Rightarrow> Inr (Some (Map.empty(''email'' \<mapsto> email)))))
                        else Inr None)
                 else Inr None)
          else Inr None)"

definition get_user_email :: "world \<Rightarrow> nat \<Rightarrow> jval \<Rightarrow> exn + dict" where
  "get_user_email w i user_id =
     (case get_user_email_try w i user_id of
        Inl e \<Rightarrow> Inr Map.empty
      | Inr None \<Rightarrow> Inr Map.empty
      | Inr (Some d) \<Rightarrow> Inr d)"

text \<open>\<^verbatim>\<open>TaskScheduler._cleanup_old_reminders\<close>\<close>

definition cleanup_old_reminders :: "string fset \<Rightarrow> string fset" where
  "cleanup_old_reminders sent = (if fcard sent > 1000 then {||} else sent)"

text \<open>Lines 40 to 49: parse the due date and strip the time zone.\<close>

definition parse_due_date :: "world \<Rightarrow> dict \<Rightarrow> exn + datetime" where
  "parse_due_date w task =
     (case dict_item task ''due_date'' of
        Inl e \<Rightarrow> Inl e
      | Inr (JStr due_date_str) \<Rightarrow>
          (case (if CHR ''T'' \<in> set due_date_str
                 then fromisoformat w (replace_Z due_date_str)
                 else fromisoformat w due_date_str) of
             None \<Rightarrow> Inl ValueError
           | Some due_date \<Rightarrow>
               Inr (if tzinfo due_date \<noteq> None then due_date\<lparr>tzinfo := None\<rparr> else due_date))
      | Inr _ \<Rightarrow> Inl TypeError)"

text \<open>Lines 55 and 56.\<close>

definition hours_until_due :: "datetime \<Rightarrow> int \<Rightarrow> rat" where
  "hours_until_due due_date now_us = total_seconds (wall due_date - now_us) / 3600"

text \<open>
  The three branches end alike: call the adapter; when it reports success, add the key
  and count the reminder. \<open>a\<close> is the address of the dictionary passed to the adapter.
\<close>

definition deliver :: "world \<Rightarrow> nat \<Rightarrow> string \<Rightarrow> jval \<Rightarrow> nat \<Rightarrow> pass_state \<Rightarrow> (exn + unit) \<times> pass_state" where
  "deliver w i key user_email a s =
     (case send_task_reminder w i user_email (heap s a) of
        Inl e \<Rightarrow> (Inl e, s)
      | Inr success \<Rightarrow>
          (let s' = emit (SendMail i key user_email a (heap s a) success) s
           in if success
              then (Inr (), s'\<lparr>sent_reminders := finsert key (sent_reminders s'),
                               reminder_sent_count := reminder_sent_count s' + 1\<rparr>)
              else (Inr (), s')))"

text \<open>\<^verbatim>\<open>overdue_task = task.copy(); overdue_task['title'] = f"OVERDUE: {task['title']}"\<close>\<close>

definition copy_dict :: "nat \<Rightarrow> pass_state \<Rightarrow> nat \<times> pass_state" where
  "copy_dict a s =
     (next_addr s, s\<lparr>heap := (heap s)(next_addr s := heap s a), next_addr := Suc (next_addr s)\<rparr>)"

definition set_item :: "nat \<Rightarrow> string \<Rightarrow> jval \<Rightarrow> pass_state \<Rightarrow> pass_state" where
  "set_item a k v s = s\<lparr>heap := (heap s)(a := (heap s a)(k \<mapsto> v))\<rparr>"

text \<open>Lines 73 to 98: the \<^verbatim>\<open>if\<close>/\<^verbatim>\<open>elif\<close> chain over the three windows.\<close>

definition window_chain ::
  "world \<Rightarrow> nat \<Rightarrow> nat \<Rightarrow> rat \<Rightarrow> jval \<Rightarrow> jval \<Rightarrow> pass_state \<Rightarrow> (exn + unit) \<times> pass_state" where
  "window_chain w i a hours task_id user_email s =
     (let task = heap s a;
          reminder_key_1h = py_str task_id @ ''_1h'';
          reminder_key_due = py_str task_id @ ''_due'';
          reminder_key_overdue = py_str task_id @ ''_overdue''
      in
      if 0.9 \<le> hours \<and> hours \<le> 1.1 \<and> reminder_key_1h |\<notin>| sent_reminders s then
        (case dict_item task ''title'' of
           Inl e \<Rightarrow> (Inl e, s)
         | Inr title \<Rightarrow> deliver w i reminder_key_1h user_email a s)
      else if - 0.08 \<le> hours \<and> hours \<le> 0.08 \<and> reminder_key_due |\<notin>| sent_reminders s then
        (case dict_item task ''title'' of
           Inl e \<Rightarrow> (Inl e, s)
         | Inr title \<Rightarrow> deliver w i reminder_key_due user_email a s)
      else if - 1.1 \<le> hours \<and> hours \<le> - 0.9 \<and> reminder_key_overdue |\<notin>| sent_reminders s then
        (case dict_item task ''title'' of
           Inl e \<Rightarrow> (Inl e, s)
         | Inr title \<Rightarrow>
             (let (overdue_task, s1) = copy_dict a s;
                  s2 = set_item overdue_task ''title'' (JStr (''OVERDUE: '' @ py_str title)) s1
              in deliver w i reminder_key_overdue user_email overdue_task s2))
      else (Inr (), s))"

text \<open>Lines 40 to 98: the body of the inner \<^verbatim>\<open>try\<close>, for the task object at \<open>a\<close>.\<close>

definition try_body :: "world \<Rightarrow> nat \<Rightarrow> nat \<Rightarrow> pass_state \<Rightarrow> (exn + unit) \<times> pass_state" where
  "try_body w i a s =
     (let task = heap s a in
      case parse_due_date w task of
        Inl e \<Rightarrow> (Inl e, s)
      | Inr due_date \<Rightarrow>
     (case dict_item task ''id'' of
        Inl e \<Rightarrow> (Inl e, s)
      | Inr task_id \<Rightarrow>
     (case dict_item task ''auth_users_id'' of
        Inl e \<Rightarrow> (Inl e, s)
      | Inr user_id \<Rightarrow>
          (let hours = hours_until_due due_date (now w);
               s1 = emit (GetUserEmail i user_id) s
           in case get_user_email w i user_id of
                Inl e \<Rightarrow> (Inl e, s1)
              | Inr user_data \<Rightarrow>
                  if user_data = Map.empty then (Inr (), s1)
                  else (let user_email = dict_get user_data ''email''
                        in if \<not> truthy user_email then (Inr (), s1)
                           else window_chain w i a hours task_id user_email s1)))))"

text \<open>Lines 35 to 102: one iteration of the loop, with the guard and the inner
  \<^verbatim>\<open>except Exception: ... continue\<close>.\<close>

definition skip_task :: "dict \<Rightarrow> bool" where
  "skip_task task \<longleftrightarrow>
     \<not> truthy (dict_get task ''due_date'') \<or> dict_get task ''status'' = JStr ''completed''"

definition process_task :: "world \<Rightarrow> nat \<Rightarrow> nat \<Rightarrow> pass_state \<Rightarrow> (exn + unit) \<times> pass_state" where
  "process_task w i a s =
     (if skip_task (heap s a) then (Inr (), s)
      else (case try_body w i a s of
              (Inl e, s') \<Rightarrow> (Inr (), s')
            | (Inr u, s') \<Rightarrow> (Inr (), s')))"

text \<open>\<^verbatim>\<open>for task in all_tasks\<close>, the references in \<open>as\<close>, counting iterations from \<open>i\<close>.\<close>

fun task_loop :: "world \<Rightarrow> nat \<Rightarrow> nat list \<Rightarrow> pass_state \<Rightarrow> (exn + unit) \<times> pass_state" where
  "task_loop w i [] s = (Inr (), s)"
| "task_loop w i (a # as) s =
     (case process_task w i a s of
        (Inl e, s') \<Rightarrow> (Inl e, s')
      | (Inr u, s') \<Rightarrow> task_loop w (Suc i) as s')"

text \<open>
  The state in which a pass starts: the dedup set as the previous pass left it, no
  objects yet. \<open>load_tasks\<close> places the decoded task rows at the addresses
  \<open>0 ..< length rows\<close>; \<^verbatim>\<open>all_tasks\<close> is the list of these references.
\<close>

definition start_state :: "string fset \<Rightarrow> pass_state" where
  "start_state sent =
     \<lparr>heap = (\<lambda>a. Map.empty), next_addr = 0, sent_reminders = sent,
      reminder_sent_count = 0, trace = []\<rparr>"

definition load_tasks :: "dict list \<Rightarrow> pass_state \<Rightarrow> pass_state" where
  "load_tasks rows s =
     s\<lparr>heap := (\<lambda>a. if a < length rows then rows ! a else Map.empty), next_addr := length rows\<rparr>"

text \<open>Lines 18 to 110: the body of the outer \<^verbatim>\<open>try\<close>.\<close>

definition check_try_block :: "world \<Rightarrow> pass_state \<Rightarrow> (exn + unit) \<times> pass_state" where
  "check_try_block w s =
     (let s0 = emit (DbCall Query) s in
      case db_query w of
        Inl e \<Rightarrow> (Inl e, s0)
      | Inr rows \<Rightarrow>
          if rows = [] then (Inr (), s0)
          else (let s1 = load_tasks rows s0 in
                case task_loop w 0 [0 ..< length rows] s1 of
                  (Inl e, s2) \<Rightarrow> (Inl e, s2)
                | (Inr u, s2) \<Rightarrow>
                    (Inr (), s2\<lparr>sent_reminders := cleanup_old_reminders (sent_reminders s2)\<rparr>)))"

text \<open>\<^verbatim>\<open>TaskScheduler.check_task_reminders\<close>, started with the dedup set \<open>sent\<close>.\<close>

definition check_task_reminders :: "world \<Rightarrow> string fset \<Rightarrow> (exn + unit) \<times> pass_state" where
  "check_task_reminders w sent =
     (case check_try_block w (start_state sent) of
        (Inl e, s) \<Rightarrow> (Inr (), s)
      | (Inr u, s) \<Rightarrow> (Inr (), s))"

section \<open>Windows and reminder keys\<close>

text \<open>
  The specification names three reminder windows and says which values of the time to
  due fall in each (its data model, inclusive bounds). \<open>spec_in_window\<close> is that
  description; the scheduler's own tests are the conditions of \<open>window_chain\<close>, and
  the two are compared below. \<open>reminder_key\<close> is the key the scheduler builds for a
  task id and a window: the three f-strings of lines 59 to 61.
\<close>

datatype window = PreDue | DueNow | Overdue

fun spec_in_window :: "window \<Rightarrow> rat \<Rightarrow> bool" where
  "spec_in_window PreDue h = (0.9 \<le> h \<and> h \<le> 1.1)"
| "spec_in_window DueNow h = (- 0.08 \<le> h \<and> h \<le> 0.08)"
| "spec_in_window Overdue h = (- 1.1 \<le> h \<and> h \<le> - 0.9)"

fun window_name :: "window \<Rightarrow> string" where
  "window_name PreDue = ''1h''"
| "window_name DueNow = ''due''"
| "window_name Overdue = ''overdue''"

definition reminder_key :: "jval \<Rightarrow> window \<Rightarrow> string" where
  "reminder_key task_id win = py_str task_id @ ''_'' @ window_name win"

section \<open>Reading a trace\<close>

text \<open>
  \<open>mail_key\<close> and \<open>delivered\<close> read a \<open>SendMail\<close> event; \<open>delivered_keys\<close> lists the
  keys of the reminders a trace shows as sent with success. The predicates after them
  say what is known after \<open>j\<close> iterations of the loop over the decoded \<open>rows\<close>, started
  with the dedup set \<open>S0\<close>: the task objects are as decoded, the dedup set is \<open>S0\<close> and
  the delivered keys, every event has its reason in the row it belongs to, and every
  row that calls for a lookup or a reminder has got one.
\<close>

fun mail_key :: "event \<Rightarrow> string option" where
  "mail_key (SendMail i k to a d ok) = Some k"
| "mail_key _ = None"

fun delivered :: "event \<Rightarrow> bool" where
  "delivered (SendMail i k to a d ok) = ok"
| "delivered _ = False"

definition delivered_keys :: "event list \<Rightarrow> string list" where
  "delivered_keys tr = List.map_filter (\<lambda>ev. if delivered ev then mail_key ev else None) tr"

definition originals_kept :: "dict list \<Rightarrow> pass_state \<Rightarrow> bool" where
  "originals_kept rows t \<longleftrightarrow>
     length rows \<le> next_addr t \<and> (\<forall>b < length rows. heap t b = rows ! b)"

definition dedup_accounted :: "string fset \<Rightarrow> pass_state \<Rightarrow> bool" where
  "dedup_accounted S0 t \<longleftrightarrow>
     sent_reminders t = S0 |\<union>| fset_of_list (delivered_keys (trace t))
     \<and> reminder_sent_count t = length (delivered_keys (trace t))
     \<and> distinct (delivered_keys (trace t))
     \<and> (\<forall>ev \<in> set (trace t). \<forall>k. mail_key ev = Some k \<longrightarrow> k |\<notin>| S0)"

text \<open>
  \<open>reaches_lookup\<close>: the row gets as far as line 65, the call of
  \<^verbatim>\<open>_get_user_email\<close>. \<open>mail_matches\<close>: the reason a \<open>SendMail\<close> event has in
  its row.
\<close>

definition reaches_lookup :: "world \<Rightarrow> dict \<Rightarrow> bool" where
  "reaches_lookup w task \<longleftrightarrow>
     \<not> skip_task task \<and> \<not> isl (parse_due_date w task)
     \<and> task ''id'' \<noteq> None \<and> task ''auth_users_id'' \<noteq> None"

definition mail_matches :: "world \<Rightarrow> dict list \<Rightarrow> nat \<Rightarrow> string \<Rightarrow> jval \<Rightarrow> nat \<Rightarrow> dict \<Rightarrow> bool \<Rightarrow> bool" where
  "mail_matches w rows i k to addr d ok \<longleftrightarrow>
     (\<exists>due tid win title.
        parse_due_date w (rows ! i) = Inr due \<and> (rows ! i) ''id'' = Some tid
        \<and> (rows ! i) ''title'' = Some title
        \<and> spec_in_window win (hours_until_due due (now w))
        \<and> k = reminder_key tid win
        \<and> (win \<noteq> Overdue \<longrightarrow> addr = i \<and> d = rows ! i)
        \<and> (win = Overdue \<longrightarrow> length rows \<le> addr
              \<and> d = (rows ! i)(''title'' \<mapsto> JStr (''OVERDUE: '' @ py_str title)))
        \<and> truthy to \<and> send_task_reminder w i to d = Inr ok)"

definition event_ok :: "world \<Rightarrow> dict list \<Rightarrow> nat \<Rightarrow> event \<Rightarrow> bool" where
  "event_ok w rows j ev =
     (case ev of
        DbCall op \<Rightarrow> op = Query
      | GetUserEmail i uid \<Rightarrow>
          i < j \<and> reaches_lookup w (rows ! i) \<and> (rows ! i) ''auth_users_id'' = Some uid
      | SendMail i k to addr d ok \<Rightarrow>
          i < j \<and> reaches_lookup w (rows ! i) \<and> mail_matches w rows i k to addr d ok)"

definition lookups_done :: "world \<Rightarrow> dict list \<Rightarrow> nat \<Rightarrow> pass_state \<Rightarrow> bool" where
  "lookups_done w rows j t \<longleftrightarrow>
     (\<forall>i < j. \<forall>uid. reaches_lookup w (rows ! i) \<and> (rows ! i) ''auth_users_id'' = Some uid
         \<longrightarrow> GetUserEmail i uid \<in> set (trace t))"

text \<open>
  \<open>mail_due w i task tid win\<close>: the row \<open>task\<close>, handled by iteration \<open>i\<close>, calls for the
  reminder of window \<open>win\<close>. It passes the skip test, its due date parses and is in
  the window, it has the id \<open>tid\<close>, an owner whose address the lookup finds, and a title.
\<close>

definition mail_due :: "world \<Rightarrow> nat \<Rightarrow> dict \<Rightarrow> jval \<Rightarrow> window \<Rightarrow> bool" where
  "mail_due w i task tid win \<longleftrightarrow>
     (\<exists>due uid ud.
        \<not> skip_task task \<and> parse_due_date w task = Inr due \<and> task ''id'' = Some tid
        \<and> task ''auth_users_id'' = Some uid \<and> get_user_email w i uid = Inr ud
        \<and> truthy (dict_get ud ''email'')
        \<and> spec_in_window win (hours_until_due due (now w))
        \<and> task ''title'' \<noteq> None)"

definition mails_done :: "world \<Rightarrow> dict list \<Rightarrow> string fset \<Rightarrow> nat \<Rightarrow> pass_state \<Rightarrow> bool" where
  "mails_done w rows S0 j t \<longleftrightarrow>
     (\<forall>i < j. \<forall>tid win. mail_due w i (rows ! i) tid win
         \<longrightarrow> reminder_key tid win |\<in>| S0
             \<or> (\<exists>ev \<in> set (trace t). mail_key ev = Some (reminder_key tid win)))"

definition pass_inv :: "world \<Rightarrow> dict list \<Rightarrow> string fset \<Rightarrow> nat \<Rightarrow> pass_state \<Rightarrow> bool" where
  "pass_inv w rows S0 j t \<longleftrightarrow>
     originals_kept rows t \<and> dedup_accounted S0 t
     \<and> (\<forall>ev \<in> set (trace t). event_ok w rows j ev)
     \<and> lookups_done w rows j t \<and> mails_done w rows S0 j t"

text \<open>
  The life of the process: consecutive passes, one world each, every pass started with
  the dedup set the one before left. \<open>lifetime\<close> is the trace of all of them;
  \<open>no_key_dropped\<close> says that no pass ended with the cleanup dropping a key (the set a
  pass leaves still holds the keys it started with and the keys it delivered).
\<close>

fun lifetime :: "world list \<Rightarrow> string fset \<Rightarrow> event list" where
  "lifetime [] sent = []"
| "lifetime (w # ws) sent =
     (let s = snd (check_task_reminders w sent)
      in trace s @ lifetime ws (sent_reminders s))"

fun no_key_dropped :: "world list \<Rightarrow> string fset \<Rightarrow> bool" where
  "no_key_dropped [] sent = True"
| "no_key_dropped (w # ws) sent =
     (let s = snd (check_task_reminders w sent)
      in sent |\<union>| fset_of_list (delivered_keys (trace s)) |\<subseteq>| sent_reminders s
         \<and> no_key_dropped ws (sent_reminders s))"

section \<open>Sample data\<close>

text \<open>
  A clock whose origin is 2024-05-01T00:00:00, a parser that knows four readings of that
  day, a task row, and a world in which it is noon, every lookup finds the owner's
  address and every SMTP conversation succeeds.
\<close>

definition iso_sample :: "string \<Rightarrow> datetime option" where
  "iso_sample s =
     (if s = ''2024-05-01T13:00:00+00:00'' then Some \<lparr>wall = 46800000000, tzinfo = Some 0\<rparr>
      else if s = ''2024-05-01T12:00:00'' then Some \<lparr>wall = 43200000000, tzinfo = None\<rparr>
      else if s = ''2024-05-01T11:00:00'' then Some \<lparr>wall = 39600000000, tzinfo = None\<rparr>
      else if s = ''2024-05-01T17:00:00'' then Some \<lparr>wall = 61200000000, tzinfo = None\<rparr>
      else None)"

definition sample_task :: "string \<Rightarrow> string \<Rightarrow> string \<Rightarrow> dict" where
  "sample_task tid due status =
     [''id'' \<mapsto> JStr tid, ''auth_users_id'' \<mapsto> JStr ''u-1'', ''title'' \<mapsto> JStr ''Write report'',
      ''priority'' \<mapsto> JStr ''high'', ''status'' \<mapsto> JStr status, ''due_date'' \<mapsto> JStr due]"

definition sample_world :: "dict list \<Rightarrow> world" where
  "sample_world rows =
     \<lparr>now = 43200000000, fromisoformat = iso_sample, db_query = Inr rows,
      http_profiles = (\<lambda>i. Inr \<lparr>status_code = 200, json = Inr (Rows [[''id'' \<mapsto> JStr ''u-1'']])\<rparr>),
      http_auth_user = (\<lambda>i. Inr \<lparr>status_code = 200,
                                 json = Inr (Object [''email'' \<mapsto> JStr ''ann@example.org''])\<rparr>),
      smtp = (\<lambda>i. None), sender_email = Some ''bot@example.org'', sender_password = Some ''secret''\<rparr>"

text \<open>A dedup set of \<open>n\<close> keys: the due-now keys of the task ids \<^verbatim>\<open>a\<close>, \<^verbatim>\<open>aa\<close>, ...\<close>

definition many_keys :: "nat \<Rightarrow> string fset" where
  "many_keys n = (\<lambda>k. replicate (Suc k) CHR ''a'' @ ''_due'') |`| fset_of_list [0 ..< n]"

section \<open>How one iteration can end\<close>

lemma spec_in_window_unique: "spec_in_window win h \<Longrightarrow> spec_in_window win' h \<Longrightarrow> win = win'"
  by (cases win; cases win') auto

lemma send_task_reminder_total:
  "\<exists>ok. send_task_reminder w i to d = Inr ok"
  by (auto simp: send_task_reminder_def split: sum.splits)

lemma deliver_cases:
  assumes "deliver w i key to a s = (r, s')"
  obtains ok where
    "r = Inr ()"
    "send_task_reminder w i to (heap s a) = Inr ok"
    "heap s' = heap s" "next_addr s' = next_addr s"
    "trace s' = trace s @ [SendMail i key to a (heap s a) ok]"
    "sent_reminders s' = (if ok then finsert key (sent_reminders s) else sent_reminders s)"
    "reminder_sent_count s' = (if ok then reminder_sent_count s + 1 else reminder_sent_count s)"
proof -
  obtain ok where ok: "send_task_reminder w i to (heap s a) = Inr ok"
    using send_task_reminder_total by blast
  show thesis
    by (rule that[of ok]) (use assms ok in \<open>auto simp: deliver_def emit_def Let_def split: if_splits\<close>)
qed

lemma window_chain_alt:
  "window_chain w i a h tid to s =
     (if spec_in_window PreDue h \<and> reminder_key tid PreDue |\<notin>| sent_reminders s then
        (case dict_item (heap s a) ''title'' of
           Inl e \<Rightarrow> (Inl e, s)
         | Inr title \<Rightarrow> deliver w i (reminder_key tid PreDue) to a s)
      else if spec_in_window DueNow h \<and> reminder_key tid DueNow |\<notin>| sent_reminders s then
        (case dict_item (heap s a) ''title'' of
           Inl e \<Rightarrow> (Inl e, s)
         | Inr title \<Rightarrow> deliver w i (reminder_key tid DueNow) to a s)
      else if spec_in_window Overdue h \<and> reminder_key tid Overdue |\<notin>| sent_reminders s then
        (case dict_item (heap s a) ''title'' of
           Inl e \<Rightarrow> (Inl e, s)
         | Inr title \<Rightarrow>
             deliver w i (reminder_key tid Overdue) to (next_addr s)
               (s\<lparr>next_addr := Suc (next_addr s),
                  heap := (heap s)(next_addr s :=
                     (heap s a)(''title'' \<mapsto> JStr (''OVERDUE: '' @ py_str title)))\<rparr>))
      else (Inr (), s))"
  unfolding window_chain_def Let_def reminder_key_def copy_dict_def set_item_def spec_in_window.simps
  by (simp cong: if_cong sum.case_cong)

declare spec_in_window.simps [simp del]

lemma window_chain_cases:
  assumes "window_chain w i a h tid to s = (r, s')"
  obtains
    (quiet) "s' = s"
      "(\<forall>win. spec_in_window win h \<longrightarrow> reminder_key tid win |\<in>| sent_reminders s) \<or> heap s a ''title'' = None"
  | (mailed) win title addr ok where
      "r = Inr ()"
      "spec_in_window win h" "reminder_key tid win |\<notin>| sent_reminders s"
      "heap s a ''title'' = Some title"
      "win \<noteq> Overdue \<longrightarrow> addr = a \<and> heap s' = heap s \<and> next_addr s' = next_addr s"
      "win = Overdue \<longrightarrow> addr = next_addr s \<and> next_addr s' = Suc (next_addr s)
          \<and> heap s' = (heap s)(addr := (heap s a)(''title'' \<mapsto> JStr (''OVERDUE: '' @ py_str title)))"
      "send_task_reminder w i to (heap s' addr) = Inr ok"
      "trace s' = trace s @ [SendMail i (reminder_key tid win) to addr (heap s' addr) ok]"
      "sent_reminders s' = (if ok then finsert (reminder_key tid win) (sent_reminders s) else sent_reminders s)"
      "reminder_sent_count s' = (if ok then reminder_sent_count s + 1 else reminder_sent_count s)"
proof -
  consider (p) "spec_in_window PreDue h \<and> reminder_key tid PreDue |\<notin>| sent_reminders s"
    | (d) "\<not> (spec_in_window PreDue h \<and> reminder_key tid PreDue |\<notin>| sent_reminders s)"
          "spec_in_window DueNow h \<and> reminder_key tid DueNow |\<notin>| sent_reminders s"
    | (o) "\<not> (spec_in_window PreDue h \<and> reminder_key tid PreDue |\<notin>| sent_reminders s)"
          "\<not> (spec_in_window DueNow h \<and> reminder_key tid DueNow |\<notin>| sent_reminders s)"
          "spec_in_window Overdue h \<and> reminder_key tid Overdue |\<notin>| sent_reminders s"
    | (n) "\<not> (spec_in_window PreDue h \<and> reminder_key tid PreDue |\<notin>| sent_reminders s)"
          "\<not> (spec_in_window DueNow h \<and> reminder_key tid DueNow |\<notin>| sent_reminders s)"
          "\<not> (spec_in_window Overdue h \<and> reminder_key tid Overdue |\<notin>| sent_reminders s)"
    by blast
  then show thesis
  proof cases
    case p
    show thesis
    proof (cases "heap s a ''title''")
      case None
      with p assms have "s' = s"
        by (auto simp: window_chain_alt dict_item_def split: if_splits)
      with None show thesis by (intro quiet) simp_all
    next
      case (Some title)
      with p assms have "deliver w i (reminder_key tid PreDue) to a s = (r, s')"
        by (auto simp: window_chain_alt dict_item_def split: if_splits)
      then show thesis
      proof (cases rule: deliver_cases)
        case (1 ok)
        show ?thesis
          by (rule mailed[of PreDue title a ok]) (use p Some 1 in simp_all)
      qed
    qed
  next
    case d
    show thesis
    proof (cases "heap s a ''title''")
      case None
      with d assms have "s' = s"
        by (auto simp: window_chain_alt dict_item_def split: if_splits)
      with None show thesis by (intro quiet) simp_all
    next
      case (Some title)
      with d assms have "deliver w i (reminder_key tid DueNow) to a s = (r, s')"
        by (auto simp: window_chain_alt dict_item_def split: if_splits)
      then show thesis
      proof (cases rule: deliver_cases)
        case (1 ok)
        show ?thesis
          by (rule mailed[of DueNow title a ok]) (use d Some 1 in simp_all)
      qed
    qed
  next
    case o
    show thesis
    proof (cases "heap s a ''title''")
      case None
      with o assms have "s' = s"
        by (auto simp: window_chain_alt dict_item_def split: if_splits)
      with None show thesis by (intro quiet) simp_all
    next
      case (Some title)
      let ?s2 = "s\<lparr>next_addr := Suc (next_addr s),
                   heap := (heap s)(next_addr s := (heap s a)(''title'' \<mapsto> JStr (''OVERDUE: '' @ py_str title)))\<rparr>"
      from Some o assms have "deliver w i (reminder_key tid Overdue) to (next_addr s) ?s2 = (r, s')"
        by (auto simp: window_chain_alt dict_item_def split: if_splits)
      then show thesis
      proof (cases rule: deliver_cases)
        case (1 ok)
        show ?thesis
          by (rule mailed[of Overdue title "next_addr s" ok]) (use o Some 1 in simp_all)
      qed
    qed
  next
    case n
    with assms have "s' = s"
      by (auto simp: window_chain_alt split: if_splits)
    moreover have "spec_in_window win h \<longrightarrow> reminder_key tid win |\<in>| sent_reminders s" for win
      using n by (cases win) auto
    ultimately show thesis by (intro quiet) simp_all
  qed
qed


lemma get_user_email_total: "\<exists>ud. get_user_email w i uid = Inr ud"
  by (auto simp: get_user_email_def split: sum.splits option.splits)

lemma process_task_cases:
  assumes "process_task w i a s = (r, s')"
  obtains
    (quiet) "r = Inr ()" "s' = s"
      "skip_task (heap s a) \<or> isl (parse_due_date w (heap s a))
         \<or> heap s a ''id'' = None \<or> heap s a ''auth_users_id'' = None"
  | (looked_up) due tid uid ud where
      "r = Inr ()" "\<not> skip_task (heap s a)"
      "parse_due_date w (heap s a) = Inr due"
      "heap s a ''id'' = Some tid" "heap s a ''auth_users_id'' = Some uid"
      "get_user_email w i uid = Inr ud"
      "s' = emit (GetUserEmail i uid) s"
      "\<not> truthy (dict_get ud ''email'')
         \<or> (\<forall>win. spec_in_window win (hours_until_due due (now w))
                 \<longrightarrow> reminder_key tid win |\<in>| sent_reminders s)
         \<or> heap s a ''title'' = None"
  | (mailed) due tid uid ud win title addr ok where
      "r = Inr ()" "\<not> skip_task (heap s a)"
      "parse_due_date w (heap s a) = Inr due"
      "heap s a ''id'' = Some tid" "heap s a ''auth_users_id'' = Some uid"
      "get_user_email w i uid = Inr ud" "truthy (dict_get ud ''email'')"
      "spec_in_window win (hours_until_due due (now w))"
      "reminder_key tid win |\<notin>| sent_reminders s"
      "heap s a ''title'' = Some title"
      "win \<noteq> Overdue \<longrightarrow> addr = a \<and> heap s' = heap s \<and> next_addr s' = next_addr s"
      "win = Overdue \<longrightarrow> addr = next_addr s \<and> next_addr s' = Suc (next_addr s)
          \<and> heap s' = (heap s)(addr := (heap s a)(''title'' \<mapsto> JStr (''OVERDUE: '' @ py_str title)))"
      "send_task_reminder w i (dict_get ud ''email'') (heap s' addr) = Inr ok"
      "trace s' = trace s @ [GetUserEmail i uid,
         SendMail i (reminder_key tid win) (dict_get ud ''email'') addr (heap s' addr) ok]"
      "sent_reminders s' = (if ok then finsert (reminder_key tid win) (sent_reminders s) else sent_reminders s)"
      "reminder_sent_count s' = (if ok then reminder_sent_count s + 1 else reminder_sent_count s)"
proof -
  have r: "r = Inr ()"
    using assms by (auto simp: process_task_def split: if_splits prod.splits sum.splits)
  show thesis
  proof (cases "skip_task (heap s a) \<or> isl (parse_due_date w (heap s a))
         \<or> heap s a ''id'' = None \<or> heap s a ''auth_users_id'' = None")
    case True
    then have "s' = s"
      using assms
      by (auto simp: process_task_def try_body_def Let_def dict_item_def isl_def
               split: if_splits prod.splits sum.splits option.splits)
    with True r show thesis by (intro quiet)
  next
    case False
    then obtain due tid uid where c: "\<not> skip_task (heap s a)"
      "parse_due_date w (heap s a) = Inr due"
      "heap s a ''id'' = Some tid" "heap s a ''auth_users_id'' = Some uid"
      by (cases "parse_due_date w (heap s a)") auto
    obtain ud where ud: "get_user_email w i uid = Inr ud"
      using get_user_email_total by blast
    let ?s1 = "emit (GetUserEmail i uid) s"
    have s1: "heap ?s1 = heap s" "next_addr ?s1 = next_addr s"
      "sent_reminders ?s1 = sent_reminders s" "reminder_sent_count ?s1 = reminder_sent_count s"
      "trace ?s1 = trace s @ [GetUserEmail i uid]"
      by (simp_all add: emit_def)
    show thesis
    proof (cases "truthy (dict_get ud ''email'')")
      case False
      then have "s' = ?s1"
        using assms c ud
        by (auto simp: process_task_def try_body_def Let_def dict_item_def
                 split: if_splits prod.splits sum.splits)
      with False c ud r show thesis by (intro looked_up[of due tid uid ud]) simp_all
    next
      case True
      then have ne: "ud \<noteq> Map.empty" by (auto simp: dict_get_def)
      obtain r' where wc: "window_chain w i a (hours_until_due due (now w)) tid
                 (dict_get ud ''email'') ?s1 = (r', s')"
        using assms c ud True ne
        by (auto simp: process_task_def try_body_def Let_def dict_item_def
                 split: if_splits prod.splits sum.splits)
      then show thesis
      proof (cases rule: window_chain_cases)
        case quiet
        with c ud r s1 show ?thesis by (intro that(2)[of due tid uid ud]) simp_all
      next
        case (mailed win title addr ok)
        show ?thesis
          by (rule that(3)[of due tid uid ud win title addr ok])
             (use mailed c ud r s1 True in simp_all)
      qed
    qed
  qed
qed

section \<open>What a pass establishes\<close>

lemma delivered_keys_append [simp]:
  "delivered_keys (xs @ ys) = delivered_keys xs @ delivered_keys ys"
  by (simp add: delivered_keys_def map_filter_def)

lemma delivered_keys_simps [simp]:
  "delivered_keys [] = []"
  "delivered_keys (SendMail i k to a d ok # evs) = (if ok then k # delivered_keys evs else delivered_keys evs)"
  "delivered_keys (GetUserEmail i uid # evs) = delivered_keys evs"
  "delivered_keys (DbCall op # evs) = delivered_keys evs"
  by (simp_all add: delivered_keys_def map_filter_def)

lemma process_task_returns: "fst (process_task w i a s) = Inr ()"
  by (auto simp: process_task_def split: prod.splits sum.splits)

lemma task_loop_upt:
  assumes "i \<le> n" "P i s"
    and step: "\<And>j t r t'. i \<le> j \<Longrightarrow> j < n \<Longrightarrow> P j t \<Longrightarrow> process_task w j j t = (r, t') \<Longrightarrow> P (Suc j) t'"
  shows "\<exists>s'. task_loop w i [i ..< n] s = (Inr (), s') \<and> P n s'"
  using assms
proof (induction "n - i" arbitrary: i s)
  case 0
  then show ?case by simp
next
  case (Suc k)
  then have lt: "i < n" by simp
  obtain r t' where pt: "process_task w i i s = (r, t')" by (cases "process_task w i i s")
  have r: "r = Inr ()" using process_task_returns[of w i i s] pt by simp
  have P': "P (Suc i) t'" using Suc.prems(3)[OF _ lt Suc.prems(2) pt] by simp
  have "\<exists>s'. task_loop w (Suc i) [Suc i ..< n] t' = (Inr (), s') \<and> P n s'"
  proof (rule Suc.hyps(1))
    show "k = n - Suc i" using Suc.hyps(2) by simp
    show "Suc i \<le> n" using lt by simp
    show "P (Suc i) t'" by (rule P')
    show "\<And>j t r t'. Suc i \<le> j \<Longrightarrow> j < n \<Longrightarrow> P j t \<Longrightarrow> process_task w j j t = (r, t') \<Longrightarrow> P (Suc j) t'"
      using Suc.prems(3) by simp
  qed
  then show ?case using lt pt r by (simp add: upt_conv_Cons)
qed

lemma step_originals_kept:
  assumes "originals_kept rows t" "process_task w j a t = (r, t')"
  shows "originals_kept rows t'"
  using assms(2)
proof (cases rule: process_task_cases)
  case quiet
  with assms show ?thesis by simp
next
  case (looked_up due tid uid ud)
  with assms show ?thesis by (simp add: originals_kept_def emit_def)
next
  case (mailed due tid uid ud win title addr ok)
  with assms(1) show ?thesis
    by (cases "win = Overdue") (auto simp: originals_kept_def)
qed

lemma step_dedup_accounted:
  assumes "dedup_accounted S0 t" "process_task w j a t = (r, t')"
  shows "dedup_accounted S0 t'"
  using assms(2)
proof (cases rule: process_task_cases)
  case quiet
  with assms show ?thesis by simp
next
  case (looked_up due tid uid ud)
  with assms show ?thesis by (simp add: dedup_accounted_def emit_def)
next
  case (mailed due tid uid ud win title addr ok)
  with assms(1) show ?thesis
    by (auto simp: dedup_accounted_def fset_of_list_elem)
qed


lemma event_ok_mono: "event_ok w rows j ev \<Longrightarrow> event_ok w rows (Suc j) ev"
  by (auto simp: event_ok_def split: event.splits)

lemma step_event_ok:
  assumes "originals_kept rows t" "j < length rows" "process_task w j j t = (r, t')"
    and "\<forall>ev \<in> set (trace t). event_ok w rows j ev"
  shows "\<forall>ev \<in> set (trace t'). event_ok w rows (Suc j) ev"
proof -
  have row: "heap t j = rows ! j" and fresh: "length rows \<le> next_addr t"
    using assms(1,2) by (simp_all add: originals_kept_def)
  have old: "\<forall>ev \<in> set (trace t). event_ok w rows (Suc j) ev"
    using assms(4) event_ok_mono by blast
  from assms(3) show ?thesis
  proof (cases rule: process_task_cases)
    case quiet
    with old show ?thesis by simp
  next
    case (looked_up due tid uid ud)
    with old row show ?thesis
      by (auto simp: emit_def event_ok_def reaches_lookup_def)
  next
    case (mailed due tid uid ud win title addr ok)
    have 1: "event_ok w rows (Suc j) (GetUserEmail j uid)"
      using mailed row by (simp add: event_ok_def reaches_lookup_def)
    have "mail_matches w rows j (reminder_key tid win) (dict_get ud ''email'') addr (heap t' addr) ok"
      unfolding mail_matches_def
      by (rule exI[of _ due], rule exI[of _ tid], rule exI[of _ win], rule exI[of _ title])
         (use mailed row fresh in auto)
    then have 2: "event_ok w rows (Suc j)
        (SendMail j (reminder_key tid win) (dict_get ud ''email'') addr (heap t' addr) ok)"
      using mailed row by (simp add: event_ok_def reaches_lookup_def)
    show ?thesis using old 1 2 mailed(14) by auto
  qed
qed

lemma step_trace_grows:
  assumes "process_task w j a t = (r, t')"
  shows "set (trace t) \<subseteq> set (trace t')"
  using assms by (cases rule: process_task_cases) (auto simp: emit_def)

lemma step_lookups_done:
  assumes "originals_kept rows t" "j < length rows" "process_task w j j t = (r, t')"
    and "lookups_done w rows j t"
  shows "lookups_done w rows (Suc j) t'"
proof -
  have row: "heap t j = rows ! j"
    using assms(1,2) by (simp add: originals_kept_def)
  have new: "GetUserEmail j uid \<in> set (trace t')"
    if "reaches_lookup w (rows ! j)" "(rows ! j) ''auth_users_id'' = Some uid" for uid
    using assms(3)
    by (cases rule: process_task_cases) (use that row in \<open>auto simp: reaches_lookup_def emit_def\<close>)
  show ?thesis
    unfolding lookups_done_def
  proof (intro allI impI)
    fix i uid
    assume i: "i < Suc j"
      and c: "reaches_lookup w (rows ! i) \<and> (rows ! i) ''auth_users_id'' = Some uid"
    show "GetUserEmail i uid \<in> set (trace t')"
    proof (cases "i = j")
      case True
      with c new show ?thesis by simp
    next
      case False
      with i have "i < j" by simp
      with c assms(4) have "GetUserEmail i uid \<in> set (trace t)"
        by (simp add: lookups_done_def)
      with step_trace_grows[OF assms(3)] show ?thesis by blast
    qed
  qed
qed

lemma step_mails_done:
  assumes "originals_kept rows t" "j < length rows" "process_task w j j t = (r, t')"
    and "dedup_accounted S0 t"
    and "mails_done w rows S0 j t"
  shows "mails_done w rows S0 (Suc j) t'"
proof -
  have row: "heap t j = rows ! j"
    using assms(1,2) by (simp add: originals_kept_def)
  have sent: "sent_reminders t = S0 |\<union>| fset_of_list (delivered_keys (trace t))"
    using assms(4) by (simp add: dedup_accounted_def)
  have dk: "k \<in> set (delivered_keys tr) \<Longrightarrow> \<exists>ev \<in> set tr. mail_key ev = Some k" for k tr
    by (auto simp: delivered_keys_def map_filter_def split: if_splits)
  have new: "reminder_key tid win |\<in>| S0
             \<or> (\<exists>ev \<in> set (trace t'). mail_key ev = Some (reminder_key tid win))"
    if md: "mail_due w j (rows ! j) tid win" for tid win
  proof -
    from md obtain due uid ud where c: "\<not> skip_task (rows ! j)"
      "parse_due_date w (rows ! j) = Inr due" "(rows ! j) ''id'' = Some tid"
      "(rows ! j) ''auth_users_id'' = Some uid" "get_user_email w j uid = Inr ud"
      "truthy (dict_get ud ''email'')" "spec_in_window win (hours_until_due due (now w))"
      "(rows ! j) ''title'' \<noteq> None"
      unfolding mail_due_def by blast
    from assms(3) show ?thesis
    proof (cases rule: process_task_cases)
      case quiet
      with c row show ?thesis by simp
    next
      case (looked_up due' tid' uid' ud')
      with c row have "reminder_key tid win |\<in>| sent_reminders t" by auto
      with sent have "reminder_key tid win |\<in>| S0 \<or> reminder_key tid win \<in> set (delivered_keys (trace t))"
        by (auto simp: fset_of_list_elem)
      with dk step_trace_grows[OF assms(3)] show ?thesis by blast
    next
      case (mailed due' tid' uid' ud' win' title addr ok)
      with c row have "win' = win" "tid' = tid"
        by (auto dest: spec_in_window_unique)
      with mailed(14) show ?thesis by simp
    qed
  qed
  show ?thesis
    unfolding mails_done_def
  proof (intro allI impI)
    fix i tid win
    assume i: "i < Suc j" and md: "mail_due w i (rows ! i) tid win"
    show "reminder_key tid win |\<in>| S0
             \<or> (\<exists>ev \<in> set (trace t'). mail_key ev = Some (reminder_key tid win))"
    proof (cases "i = j")
      case True
      with md new show ?thesis by simp
    next
      case False
      with i have "i < j" by simp
      with md assms(5) have "reminder_key tid win |\<in>| S0
             \<or> (\<exists>ev \<in> set (trace t). mail_key ev = Some (reminder_key tid win))"
        by (simp add: mails_done_def)
      with step_trace_grows[OF assms(3)] show ?thesis by blast
    qed
  qed
qed


lemma pass_inv_initially:
  "pass_inv w rows S0 0 (load_tasks rows (emit (DbCall Query) (start_state S0)))"
  by (simp add: pass_inv_def originals_kept_def dedup_accounted_def event_ok_def lookups_done_def
        mails_done_def load_tasks_def emit_def start_state_def)

lemma pass_inv_step:
  assumes "j < length rows" "pass_inv w rows S0 j t" "process_task w j j t = (r, t')"
  shows "pass_inv w rows S0 (Suc j) t'"
  using assms step_originals_kept[of rows t w j j r t'] step_dedup_accounted[of S0 t w j j r t']
    step_event_ok[of rows t j w r t'] step_lookups_done[of rows t j w r t']
    step_mails_done[of rows t j w r t' S0]
  by (simp add: pass_inv_def)

lemma pass_cases:
  obtains
    (no_tasks) "(\<exists>e. db_query w = Inl e) \<or> db_query w = Inr []"
      "check_task_reminders w S0 = (Inr (), emit (DbCall Query) (start_state S0))"
  | (looped) rows s2 where
      "db_query w = Inr rows" "rows \<noteq> []"
      "task_loop w 0 [0 ..< length rows] (load_tasks rows (emit (DbCall Query) (start_state S0)))
         = (Inr (), s2)"
      "pass_inv w rows S0 (length rows) s2"
      "check_task_reminders w S0
         = (Inr (), s2\<lparr>sent_reminders := cleanup_old_reminders (sent_reminders s2)\<rparr>)"
proof (cases "(\<exists>e. db_query w = Inl e) \<or> db_query w = Inr []")
  case True
  then have "check_task_reminders w S0 = (Inr (), emit (DbCall Query) (start_state S0))"
    by (auto simp: check_task_reminders_def check_try_block_def Let_def)
  with True show thesis by (rule no_tasks)
next
  case False
  then obtain rows where rows: "db_query w = Inr rows" "rows \<noteq> []"
    by (cases "db_query w") auto
  let ?s1 = "load_tasks rows (emit (DbCall Query) (start_state S0))"
  have "\<exists>s2. task_loop w 0 [0 ..< length rows] ?s1 = (Inr (), s2) \<and> pass_inv w rows S0 (length rows) s2"
    by (rule task_loop_upt[where P = "pass_inv w rows S0"])
       (simp_all add: pass_inv_initially pass_inv_step)
  then obtain s2 where s2: "task_loop w 0 [0 ..< length rows] ?s1 = (Inr (), s2)"
    "pass_inv w rows S0 (length rows) s2" by blast
  have "check_task_reminders w S0
         = (Inr (), s2\<lparr>sent_reminders := cleanup_old_reminders (sent_reminders s2)\<rparr>)"
    using rows s2(1) by (simp add: check_task_reminders_def check_try_block_def Let_def)
  with rows s2 show thesis by (rule looped)
qed

lemma fcard_many_keys: "fcard (many_keys n) = n"
proof -
  have "inj_on (\<lambda>k. replicate (Suc k) CHR ''a'' @ ''_due'') {0 ..< n}"
    by (rule inj_onI) (metis Suc_inject add_right_cancel length_append length_replicate)
  then show ?thesis
    by (simp add: many_keys_def fcard.rep_eq fset_of_list.rep_eq card_image)
qed

lemmas pass_eval = check_task_reminders_def check_try_block_def start_state_def load_tasks_def
  process_task_def try_body_def window_chain_def deliver_def copy_dict_def set_item_def emit_def
  skip_task_def parse_due_date_def hours_until_due_def total_seconds_def get_user_email_def
  get_user_email_try_def send_task_reminder_def send_try_block_def subject_line_def body_due_date_def
  html_body_def falsy_setting_def dict_get_def dict_item_def replace_Z_def cleanup_old_reminders_def
  sample_world_def sample_task_def iso_sample_def Let_def

lemma pass_events_ok:
  assumes "db_query w = Inr rows"
  shows "\<forall>ev \<in> set (trace (snd (check_task_reminders w sent))). event_ok w rows (length rows) ev"
proof (cases rule: pass_cases[of w sent])
  case no_tasks
  then show ?thesis by (simp add: emit_def start_state_def event_ok_def)
next
  case (looped rows' s2)
  with assms show ?thesis by (simp add: pass_inv_def)
qed

lemma pass_heap:
  assumes "db_query w = Inr rows" "b < length rows"
  shows "heap (snd (check_task_reminders w sent)) b = rows ! b"
proof (cases rule: pass_cases[of w sent])
  case no_tasks
  with assms show ?thesis by auto
next
  case (looped rows' s2)
  with assms show ?thesis by (simp add: pass_inv_def originals_kept_def)
qed

lemma pass_lookups_done:
  assumes "db_query w = Inr rows"
  shows "lookups_done w rows (length rows) (snd (check_task_reminders w sent))"
proof (cases rule: pass_cases[of w sent])
  case no_tasks
  with assms show ?thesis by (auto simp: lookups_done_def)
next
  case (looped rows' s2)
  with assms show ?thesis by (simp add: pass_inv_def lookups_done_def)
qed

lemma pass_mails_done:
  assumes "db_query w = Inr rows"
  shows "mails_done w rows sent (length rows) (snd (check_task_reminders w sent))"
proof (cases rule: pass_cases[of w sent])
  case no_tasks
  with assms show ?thesis by (auto simp: mails_done_def)
next
  case (looped rows' s2)
  with assms show ?thesis by (simp add: pass_inv_def mails_done_def)
qed

lemma pass_dedup:
  "distinct (delivered_keys (trace (snd (check_task_reminders w sent))))"
  "\<forall>ev \<in> set (trace (snd (check_task_reminders w sent))). \<forall>k. mail_key ev = Some k \<longrightarrow> k |\<notin>| sent"
  "sent_reminders (snd (check_task_reminders w sent)) =
     (if (\<exists>e. db_query w = Inl e) \<or> db_query w = Inr [] then sent
      else cleanup_old_reminders
             (sent |\<union>| fset_of_list (delivered_keys (trace (snd (check_task_reminders w sent))))))"
  "reminder_sent_count (snd (check_task_reminders w sent))
     = length (delivered_keys (trace (snd (check_task_reminders w sent))))"
proof -
  have "distinct (delivered_keys (trace (snd (check_task_reminders w sent))))
    \<and> (\<forall>ev \<in> set (trace (snd (check_task_reminders w sent))). \<forall>k. mail_key ev = Some k \<longrightarrow> k |\<notin>| sent)
    \<and> sent_reminders (snd (check_task_reminders w sent)) =
     (if (\<exists>e. db_query w = Inl e) \<or> db_query w = Inr [] then sent
      else cleanup_old_reminders
             (sent |\<union>| fset_of_list (delivered_keys (trace (snd (check_task_reminders w sent))))))
    \<and> reminder_sent_count (snd (check_task_reminders w sent))
     = length (delivered_keys (trace (snd (check_task_reminders w sent))))"
  proof (cases rule: pass_cases[of w sent])
    case no_tasks
    then show ?thesis by (simp add: emit_def start_state_def)
  next
    case (looped rows s2)
    then show ?thesis by (auto simp: pass_inv_def dedup_accounted_def)
  qed
  then show "distinct (delivered_keys (trace (snd (check_task_reminders w sent))))"
  "\<forall>ev \<in> set (trace (snd (check_task_reminders w sent))). \<forall>k. mail_key ev = Some k \<longrightarrow> k |\<notin>| sent"
  "sent_reminders (snd (check_task_reminders w sent)) =
     (if (\<exists>e. db_query w = Inl e) \<or> db_query w = Inr [] then sent
      else cleanup_old_reminders
             (sent |\<union>| fset_of_list (delivered_keys (trace (snd (check_task_reminders w sent))))))"
  "reminder_sent_count (snd (check_task_reminders w sent))
     = length (delivered_keys (trace (snd (check_task_reminders w sent))))"
    by blast+
qed

lemma distinct_count_list_le_1: "distinct xs \<Longrightarrow> count_list xs k \<le> 1"
  by (induction xs) auto

lemma delivered_keys_mail_key:
  "k \<in> set (delivered_keys tr) \<Longrightarrow> \<exists>ev \<in> set tr. mail_key ev = Some k"
  by (auto simp: delivered_keys_def map_filter_def split: if_splits)

lemma lifetime_no_resend:
  "no_key_dropped ws sent \<Longrightarrow> k |\<in>| sent \<Longrightarrow> \<forall>ev \<in> set (lifetime ws sent). mail_key ev \<noteq> Some k"
proof (induction ws arbitrary: sent)
  case Nil
  then show ?case by simp
next
  case (Cons w ws)
  let ?s = "snd (check_task_reminders w sent)"
  have 1: "\<forall>ev \<in> set (trace ?s). mail_key ev \<noteq> Some k"
    using pass_dedup(2)[of w sent] Cons.prems(2) by blast
  have "k |\<in>| sent_reminders ?s" "no_key_dropped ws (sent_reminders ?s)"
    using Cons.prems by (auto simp: Let_def)
  then have "\<forall>ev \<in> set (lifetime ws (sent_reminders ?s)). mail_key ev \<noteq> Some k"
    by (rule Cons.IH[rotated])
  with 1 show ?case by (auto simp: Let_def)
qed

lemma lifetime_at_most_once:
  "no_key_dropped ws sent \<Longrightarrow> count_list (delivered_keys (lifetime ws sent)) k \<le> 1"
proof (induction ws arbitrary: sent)
  case Nil
  then show ?case by simp
next
  case (Cons w ws)
  let ?s = "snd (check_task_reminders w sent)"
  have nd: "no_key_dropped ws (sent_reminders ?s)"
    and sub: "fset_of_list (delivered_keys (trace ?s)) |\<subseteq>| sent_reminders ?s"
    using Cons.prems by (auto simp: Let_def)
  have here: "count_list (delivered_keys (trace ?s)) k \<le> 1"
    using pass_dedup(1)[of w sent] by (rule distinct_count_list_le_1)
  have later: "count_list (delivered_keys (lifetime ws (sent_reminders ?s))) k \<le> 1"
    using nd by (rule Cons.IH)
  show ?case
  proof (cases "k \<in> set (delivered_keys (trace ?s))")
    case True
    with sub have "k |\<in>| sent_reminders ?s" by (auto simp: fset_of_list_elem)
    with nd have "\<forall>ev \<in> set (lifetime ws (sent_reminders ?s)). mail_key ev \<noteq> Some k"
      by (rule lifetime_no_resend)
    then have "k \<notin> set (delivered_keys (lifetime ws (sent_reminders ?s)))"
      using delivered_keys_mail_key by blast
    with here show ?thesis by (simp add: Let_def)
  next
    case False
    with later show ?thesis by (simp add: Let_def)
  qed
qed

lemma sample_pass_fresh:
  "trace (snd (check_task_reminders (sample_world [sample_task ''t1'' ''2024-05-01T13:00:00Z'' ''todo'']) {||}))
     = [DbCall Query, GetUserEmail 0 (JStr ''u-1''),
        SendMail 0 ''t1_1h'' (JStr ''ann@example.org'') 0
          (sample_task ''t1'' ''2024-05-01T13:00:00Z'' ''todo'') True]"
  "sent_reminders (snd (check_task_reminders
      (sample_world [sample_task ''t1'' ''2024-05-01T13:00:00Z'' ''todo'']) {||})) = {|''t1_1h''|}"
  by (simp_all add: pass_eval fcard_finsert_if fcard_fempty)

lemma sample_pass_again:
  "trace (snd (check_task_reminders
      (sample_world [sample_task ''t1'' ''2024-05-01T13:00:00Z'' ''todo'']) {|''t1_1h''|}))
     = [DbCall Query, GetUserEmail 0 (JStr ''u-1'')]"
  "sent_reminders (snd (check_task_reminders
      (sample_world [sample_task ''t1'' ''2024-05-01T13:00:00Z'' ''todo'']) {|''t1_1h''|})) = {|''t1_1h''|}"
  by (simp_all add: pass_eval fcard_finsert_if fcard_fempty)

lemma reminder_key_inj:
  assumes "reminder_key tid win = reminder_key tid' win'"
  shows "py_str tid = py_str tid' \<and> win = win'"
proof -
  from assms have "rev (reminder_key tid win) = rev (reminder_key tid' win')" by simp
  then show ?thesis
    by (cases win; cases win') (simp_all add: reminder_key_def)
qed

lemma reminder_key_window: "reminder_key tid win = reminder_key tid win' \<Longrightarrow> win = win'"
  by (cases win; cases win') (simp_all add: reminder_key_def)

lemma window_chain_mails_iff:
  "(\<exists>addr d ok. trace (snd (window_chain w i a h tid to s))
        = trace s @ [SendMail i (reminder_key tid win) to addr d ok])
   \<longleftrightarrow> spec_in_window win h \<and> reminder_key tid win |\<notin>| sent_reminders s
       \<and> heap s a ''title'' \<noteq> None"
proof -
  obtain r s' where ws: "window_chain w i a h tid to s = (r, s')"
    by (cases "window_chain w i a h tid to s")
  from ws show ?thesis
  proof (cases rule: window_chain_cases)
    case quiet
    then show ?thesis using ws by auto
  next
    case (mailed win' title addr ok)
    show ?thesis
    proof
      assume "\<exists>addr d ok. trace (snd (window_chain w i a h tid to s))
        = trace s @ [SendMail i (reminder_key tid win) to addr d ok]"
      with ws mailed(8) have "reminder_key tid win' = reminder_key tid win" by auto
      then have "win' = win" by (rule reminder_key_window)
      with mailed show "spec_in_window win h \<and> reminder_key tid win |\<notin>| sent_reminders s
       \<and> heap s a ''title'' \<noteq> None" by simp
    next
      assume "spec_in_window win h \<and> reminder_key tid win |\<notin>| sent_reminders s
       \<and> heap s a ''title'' \<noteq> None"
      with mailed(2) have "win' = win" by (auto dest: spec_in_window_unique)
      with ws mailed(8) show "\<exists>addr d ok. trace (snd (window_chain w i a h tid to s))
        = trace s @ [SendMail i (reminder_key tid win) to addr d ok]" by auto
    qed
  qed
qed

lemma window_chain_outside:
  assumes "\<forall>win. \<not> spec_in_window win h"
  shows "window_chain w i a h tid to s = (Inr (), s)"
  using assms by (simp add: window_chain_alt)

section \<open>The claims\<close>

text \<open>
  C1. A reminder key stands for one task id (as printed) and one window. A reminder
  whose key is in the dedup set is not sent again: a pass started with
  the key \<open>k\<close> in the set makes no send for \<open>k\<close>, whatever the clock says. Over a
  lifetime of passes (\<open>lifetime\<close>: the traces of consecutive passes, each started with
  the set the one before left) in which the cleanup drops no key (\<open>no_key_dropped\<close>),
  a key that is in the set is never mailed again and every key is delivered at most once.
\<close>

theorem one_email_per_reminder_key:
  "(reminder_key tid win = reminder_key tid' win' \<longrightarrow> py_str tid = py_str tid' \<and> win = win')
   \<and> (k |\<in>| sent \<longrightarrow>
        (\<forall>ev \<in> set (trace (snd (check_task_reminders w sent))). mail_key ev \<noteq> Some k))
   \<and> (no_key_dropped ws sent \<longrightarrow>
        (k |\<in>| sent \<longrightarrow> (\<forall>ev \<in> set (lifetime ws sent). mail_key ev \<noteq> Some k))
        \<and> count_list (delivered_keys (lifetime ws sent)) k \<le> 1)"
  using reminder_key_inj[of tid win tid' win'] pass_dedup(2)[of w sent]
    lifetime_no_resend[of ws sent k] lifetime_at_most_once[of ws sent k]
  by blast

theorem one_email_per_reminder_key_witness:
  "''t1_1h'' |\<in>| {|''t1_1h''|}
   \<and> no_key_dropped [sample_world [sample_task ''t1'' ''2024-05-01T13:00:00Z'' ''todo''],
                      sample_world [sample_task ''t1'' ''2024-05-01T13:00:00Z'' ''todo'']] {||}
   \<and> Some ''t1_1h'' \<notin> mail_key ` set (trace (snd (check_task_reminders
          (sample_world [sample_task ''t1'' ''2024-05-01T13:00:00Z'' ''todo'']) {|''t1_1h''|})))
   \<and> delivered_keys (lifetime [sample_world [sample_task ''t1'' ''2024-05-01T13:00:00Z'' ''todo''],
                      sample_world [sample_task ''t1'' ''2024-05-01T13:00:00Z'' ''todo'']] {||})
       = [''t1_1h'']
   \<and> count_list (delivered_keys (lifetime [sample_world [sample_task ''t1'' ''2024-05-01T13:00:00Z'' ''todo''],
                      sample_world [sample_task ''t1'' ''2024-05-01T13:00:00Z'' ''todo'']] {||}))
        ''t1_1h'' \<le> 1"
proof -
  let ?W = "sample_world [sample_task ''t1'' ''2024-05-01T13:00:00Z'' ''todo'']"
  have h1: "''t1_1h'' |\<in>| {|''t1_1h''|}" by simp
  have h2: "no_key_dropped [?W, ?W] {||}"
    by (simp add: Let_def sample_pass_fresh sample_pass_again)
  have e: "delivered_keys (lifetime [?W, ?W] {||}) = [''t1_1h'']"
    by (simp add: Let_def sample_pass_fresh sample_pass_again)
  note t1 = one_email_per_reminder_key[where tid = "JStr ''t1''" and win = PreDue
      and tid' = "JStr ''t1''" and win' = PreDue
      and k = "''t1_1h''" and sent = "{|''t1_1h''|}" and w = ?W and ws = "[]"]
  note t2 = one_email_per_reminder_key[where tid = "JStr ''t1''" and win = PreDue
      and tid' = "JStr ''t1''" and win' = PreDue
      and k = "''t1_1h''" and sent = "{||}" and w = ?W and ws = "[?W, ?W]"]
  have a: "\<forall>ev \<in> set (trace (snd (check_task_reminders ?W {|''t1_1h''|}))).
             mail_key ev \<noteq> Some ''t1_1h''"
    using t1 h1 by blast
  then have a': "Some ''t1_1h'' \<notin> mail_key ` set (trace (snd (check_task_reminders ?W {|''t1_1h''|})))"
    by (auto simp: image_iff)
  have b: "count_list (delivered_keys (lifetime [?W, ?W] {||})) ''t1_1h'' \<le> 1"
    using t2 h2 by blast
  from h1 h2 a' e b show ?thesis by blast
qed

text \<open>
  C2. The hours until due fall in at most one of the three windows, whose bounds are
  inclusive: pre-due on \<open>[0.9, 1.1]\<close>, due-now on \<open>[-0.08, 0.08]\<close>, overdue on
  \<open>[-1.1, -0.9]\<close>. The scheduler's \<^verbatim>\<open>if\<close>/\<^verbatim>\<open>elif\<close> chain sends the reminder of a window
  exactly when the hours are in that window (and the key is absent and the task has a
  title), and does nothing when the hours are in no window. A task due in exactly one
  hour is in the pre-due window; a task due in 1.15 hours is in none.
\<close>

theorem hours_fall_in_at_most_one_window:
  "(spec_in_window PreDue h \<longleftrightarrow> 0.9 \<le> h \<and> h \<le> 1.1)
   \<and> (spec_in_window DueNow h \<longleftrightarrow> - 0.08 \<le> h \<and> h \<le> 0.08)
   \<and> (spec_in_window Overdue h \<longleftrightarrow> - 1.1 \<le> h \<and> h \<le> - 0.9)
   \<and> (spec_in_window win h \<and> spec_in_window win' h \<longrightarrow> win = win')
   \<and> ((\<exists>addr d ok. trace (snd (window_chain w i a h tid to s))
           = trace s @ [SendMail i (reminder_key tid win) to addr d ok])
        \<longleftrightarrow> spec_in_window win h \<and> reminder_key tid win |\<notin>| sent_reminders s
            \<and> heap s a ''title'' \<noteq> None)
   \<and> ((\<forall>win. \<not> spec_in_window win h) \<longrightarrow> window_chain w i a h tid to s = (Inr (), s))
   \<and> spec_in_window PreDue (hours_until_due \<lparr>wall = t + 3600000000, tzinfo = None\<rparr> t)
   \<and> \<not> spec_in_window win (hours_until_due \<lparr>wall = t + 4140000000, tzinfo = None\<rparr> t)"
proof -
  have "\<not> spec_in_window win (hours_until_due \<lparr>wall = t + 4140000000, tzinfo = None\<rparr> t)"
    by (cases win) (simp_all add: spec_in_window.simps hours_until_due_def total_seconds_def)
  moreover have "spec_in_window PreDue (hours_until_due \<lparr>wall = t + 3600000000, tzinfo = None\<rparr> t)"
    by (simp add: spec_in_window.simps hours_until_due_def total_seconds_def)
  ultimately show ?thesis
    using window_chain_mails_iff[of w i a h tid to s win] window_chain_outside[of h w i a tid to s]
      spec_in_window_unique[of win h win']
    by (simp add: spec_in_window.simps)
qed

theorem hours_fall_in_at_most_one_window_witness:
  "spec_in_window PreDue 1
   \<and> reminder_key (JStr ''t1'') PreDue
        |\<notin>| sent_reminders (load_tasks [sample_task ''t1'' ''2024-05-01T13:00:00Z'' ''todo''] (start_state {||}))
   \<and> heap (load_tasks [sample_task ''t1'' ''2024-05-01T13:00:00Z'' ''todo''] (start_state {||})) 0 ''title''
        \<noteq> None
   \<and> (\<exists>addr d ok.
         trace (snd (window_chain (sample_world []) 0 0 1 (JStr ''t1'') (JStr ''ann@example.org'')
                  (load_tasks [sample_task ''t1'' ''2024-05-01T13:00:00Z'' ''todo''] (start_state {||}))))
         = trace (load_tasks [sample_task ''t1'' ''2024-05-01T13:00:00Z'' ''todo''] (start_state {||}))
           @ [SendMail 0 (reminder_key (JStr ''t1'') PreDue) (JStr ''ann@example.org'') addr d ok])
   \<and> (\<forall>win. \<not> spec_in_window win (23 / 20))
   \<and> window_chain (sample_world []) 0 0 (23 / 20) (JStr ''t1'') (JStr ''ann@example.org'')
        (load_tasks [sample_task ''t1'' ''2024-05-01T13:00:00Z'' ''todo''] (start_state {||}))
      = (Inr (), load_tasks [sample_task ''t1'' ''2024-05-01T13:00:00Z'' ''todo''] (start_state {||}))"
proof -
  let ?S = "load_tasks [sample_task ''t1'' ''2024-05-01T13:00:00Z'' ''todo''] (start_state {||})"
  have h1: "spec_in_window PreDue 1 \<and> reminder_key (JStr ''t1'') PreDue |\<notin>| sent_reminders ?S
       \<and> heap ?S 0 ''title'' \<noteq> None"
    by (simp add: spec_in_window.simps load_tasks_def start_state_def sample_task_def)
  have h2: "\<forall>win. \<not> spec_in_window win (23 / 20)"
  proof
    fix win show "\<not> spec_in_window win (23 / 20)"
      by (cases win) (simp_all add: spec_in_window.simps)
  qed
  note t1 = hours_fall_in_at_most_one_window[where h = 1 and win = PreDue and win' = PreDue
      and w = "sample_world []" and i = 0 and a = 0 and tid = "JStr ''t1''"
      and to = "JStr ''ann@example.org''" and s = ?S and t = 0]
  note t2 = hours_fall_in_at_most_one_window[where h = "23 / 20" and win = PreDue and win' = PreDue
      and w = "sample_world []" and i = 0 and a = 0 and tid = "JStr ''t1''"
      and to = "JStr ''ann@example.org''" and s = ?S and t = 0]
  note iff = t1[THEN conjunct2, THEN conjunct2, THEN conjunct2, THEN conjunct2, THEN conjunct1]
  note out = t2[THEN conjunct2, THEN conjunct2, THEN conjunct2, THEN conjunct2, THEN conjunct2,
      THEN conjunct1]
  have m: "\<exists>addr d ok.
         trace (snd (window_chain (sample_world []) 0 0 1 (JStr ''t1'') (JStr ''ann@example.org'') ?S))
         = trace ?S @ [SendMail 0 (reminder_key (JStr ''t1'') PreDue) (JStr ''ann@example.org'') addr d ok]"
    using h1 by (rule iffD2[OF iff])
  have o: "window_chain (sample_world []) 0 0 (23 / 20) (JStr ''t1'') (JStr ''ann@example.org'') ?S
      = (Inr (), ?S)"
    using h2 by (rule mp[OF out])
  from h1 m h2 o show ?thesis by (intro conjI) simp_all
qed

text \<open>
  C3. A task whose status is \<^verbatim>\<open>completed\<close>, and likewise a task without a due date, gets
  no reminder in any window: the trace of a pass has no mail of the iteration that
  handles such a row, whatever the key, the recipient or the due date.
\<close>

theorem skipped_tasks_get_no_mail:
  assumes "db_query w = Inr rows" "i < length rows"
    and "dict_get (rows ! i) ''status'' = JStr ''completed''
         \<or> \<not> truthy (dict_get (rows ! i) ''due_date'')"
  shows "SendMail i k to addr d ok \<notin> set (trace (snd (check_task_reminders w sent)))"
proof
  assume "SendMail i k to addr d ok \<in> set (trace (snd (check_task_reminders w sent)))"
  with pass_events_ok[OF assms(1)]
  have "event_ok w rows (length rows) (SendMail i k to addr d ok)" by blast
  then have "\<not> skip_task (rows ! i)" by (simp add: event_ok_def reaches_lookup_def)
  with assms(3) show False by (auto simp: skip_task_def)
qed

theorem skipped_tasks_get_no_mail_witness:
  "db_query (sample_world [sample_task ''t1'' ''2024-05-01T13:00:00Z'' ''completed''])
     = Inr [sample_task ''t1'' ''2024-05-01T13:00:00Z'' ''completed'']
   \<and> 0 < length [sample_task ''t1'' ''2024-05-01T13:00:00Z'' ''completed'']
   \<and> (dict_get ([sample_task ''t1'' ''2024-05-01T13:00:00Z'' ''completed''] ! 0) ''status''
         = JStr ''completed''
        \<or> \<not> truthy (dict_get ([sample_task ''t1'' ''2024-05-01T13:00:00Z'' ''completed''] ! 0) ''due_date''))
   \<and> SendMail 0 ''t1_1h'' (JStr ''ann@example.org'') 0
         (sample_task ''t1'' ''2024-05-01T13:00:00Z'' ''completed'') True
       \<notin> set (trace (snd (check_task_reminders
               (sample_world [sample_task ''t1'' ''2024-05-01T13:00:00Z'' ''completed'']) {||})))"
proof -
  let ?rows = "[sample_task ''t1'' ''2024-05-01T13:00:00Z'' ''completed'']"
  have h1: "db_query (sample_world ?rows) = Inr ?rows" by (simp add: sample_world_def)
  have h2: "0 < length ?rows" by simp
  have h3: "dict_get (?rows ! 0) ''status'' = JStr ''completed''
        \<or> \<not> truthy (dict_get (?rows ! 0) ''due_date'')"
    by (simp add: sample_task_def dict_get_def)
  show ?thesis
    using h1 h2 h3 skipped_tasks_get_no_mail[OF h1 h2 h3] by blast
qed

text \<open>
  C4. When a task matches a window and its key is absent, the iteration calls the mail
  adapter (with the task, or with the prefixed copy in the overdue window). If the
  adapter returns success the key is inserted and the counter of the pass goes up by
  one; if it returns failure the set and the counter stay as they were, so the key is
  still absent and a later pass tries again.
\<close>

theorem key_and_counter_follow_the_send:
  assumes "\<not> skip_task (heap s a)"
    and "parse_due_date w (heap s a) = Inr due"
    and "heap s a ''id'' = Some tid"
    and "heap s a ''auth_users_id'' = Some uid"
    and "get_user_email w i uid = Inr ud"
    and "truthy (dict_get ud ''email'')"
    and "spec_in_window win (hours_until_due due (now w))"
    and "reminder_key tid win |\<notin>| sent_reminders s"
    and "heap s a ''title'' = Some title"
  shows "(send_task_reminder w i (dict_get ud ''email'')
            (if win = Overdue
             then (heap s a)(''title'' \<mapsto> JStr (''OVERDUE: '' @ py_str title))
             else heap s a) = Inr True
          \<longrightarrow> sent_reminders (snd (process_task w i a s))
                = finsert (reminder_key tid win) (sent_reminders s)
              \<and> reminder_sent_count (snd (process_task w i a s)) = reminder_sent_count s + 1)
     \<and> (send_task_reminder w i (dict_get ud ''email'')
            (if win = Overdue
             then (heap s a)(''title'' \<mapsto> JStr (''OVERDUE: '' @ py_str title))
             else heap s a) = Inr False
          \<longrightarrow> sent_reminders (snd (process_task w i a s)) = sent_reminders s
              \<and> reminder_key tid win |\<notin>| sent_reminders (snd (process_task w i a s))
              \<and> reminder_sent_count (snd (process_task w i a s)) = reminder_sent_count s)"
proof -
  obtain r s' where ps: "process_task w i a s = (r, s')"
    by (cases "process_task w i a s")
  from ps show ?thesis
  proof (cases rule: process_task_cases)
    case quiet
    with assms show ?thesis by simp
  next
    case (looked_up due' tid' uid' ud')
    with assms show ?thesis by auto
  next
    case (mailed due' tid' uid' ud' win' title' addr ok)
    with assms have eq: "win' = win" "tid' = tid" "ud' = ud" "title' = title"
      by (auto dest: spec_in_window_unique)
    have obj: "heap s' addr = (if win = Overdue
             then (heap s a)(''title'' \<mapsto> JStr (''OVERDUE: '' @ py_str title))
             else heap s a)"
      using mailed(11,12) eq by (cases "win = Overdue") simp_all
    show ?thesis
      using mailed(13,15,16) eq obj assms(8) ps by auto
  qed
qed

theorem key_and_counter_follow_the_send_witness:
  "send_task_reminder (sample_world []) 0 (JStr ''ann@example.org'')
     ((sample_task ''t2'' ''2024-05-01T11:00:00'' ''todo'')(''title'' \<mapsto> JStr ''OVERDUE: Write report''))
     = Inr True
   \<and> sent_reminders (snd (process_task (sample_world []) 0 0
        (load_tasks [sample_task ''t2'' ''2024-05-01T11:00:00'' ''todo''] (start_state {||}))))
      = {|''t2_overdue''|}
   \<and> reminder_sent_count (snd (process_task (sample_world []) 0 0
        (load_tasks [sample_task ''t2'' ''2024-05-01T11:00:00'' ''todo''] (start_state {||})))) = 1
   \<and> send_task_reminder ((sample_world [])\<lparr>smtp := \<lambda>i. Some SMTPException\<rparr>) 0 (JStr ''ann@example.org'')
     ((sample_task ''t2'' ''2024-05-01T11:00:00'' ''todo'')(''title'' \<mapsto> JStr ''OVERDUE: Write report''))
     = Inr False
   \<and> sent_reminders (snd (process_task ((sample_world [])\<lparr>smtp := \<lambda>i. Some SMTPException\<rparr>) 0 0
        (load_tasks [sample_task ''t2'' ''2024-05-01T11:00:00'' ''todo''] (start_state {||}))))
      = {||}
   \<and> reminder_sent_count (snd (process_task ((sample_world [])\<lparr>smtp := \<lambda>i. Some SMTPException\<rparr>) 0 0
        (load_tasks [sample_task ''t2'' ''2024-05-01T11:00:00'' ''todo''] (start_state {||})))) = 0"
proof -
  let ?T = "sample_task ''t2'' ''2024-05-01T11:00:00'' ''todo''"
  let ?S = "load_tasks [?T] (start_state {||})"
  let ?W = "sample_world []"
  let ?F = "(sample_world [])\<lparr>smtp := \<lambda>i. Some SMTPException\<rparr>"
  let ?ud = "[''email'' \<mapsto> JStr ''ann@example.org'']"
  have heap: "heap ?S 0 = ?T" by (simp add: load_tasks_def)
  have a1: "\<not> skip_task (heap ?S 0)"
    by (simp add: heap) (simp add: skip_task_def sample_task_def dict_get_def)
  have a2: "parse_due_date ?W (heap ?S 0) = Inr \<lparr>wall = 39600000000, tzinfo = None\<rparr>"
    "parse_due_date ?F (heap ?S 0) = Inr \<lparr>wall = 39600000000, tzinfo = None\<rparr>"
    by (simp_all add: heap)
       (simp_all add: parse_due_date_def sample_task_def sample_world_def dict_item_def
          iso_sample_def replace_Z_def)
  have a3: "heap ?S 0 ''id'' = Some (JStr ''t2'')"
    and a4: "heap ?S 0 ''auth_users_id'' = Some (JStr ''u-1'')"
    and a9: "heap ?S 0 ''title'' = Some (JStr ''Write report'')"
    by (simp_all add: heap) (simp_all add: sample_task_def)
  have a5: "get_user_email ?W 0 (JStr ''u-1'') = Inr ?ud" "get_user_email ?F 0 (JStr ''u-1'') = Inr ?ud"
    by (simp_all add: get_user_email_def get_user_email_try_def sample_world_def dict_get_def)
  have a6: "truthy (dict_get ?ud ''email'')" by (simp add: dict_get_def)
  have a7: "spec_in_window Overdue (hours_until_due \<lparr>wall = 39600000000, tzinfo = None\<rparr> (now ?W))"
     "spec_in_window Overdue (hours_until_due \<lparr>wall = 39600000000, tzinfo = None\<rparr> (now ?F))"
    by (simp_all add: spec_in_window.simps hours_until_due_def total_seconds_def sample_world_def)
  have a8: "reminder_key (JStr ''t2'') Overdue |\<notin>| sent_reminders ?S"
    by (simp add: load_tasks_def start_state_def)
  have ok: "send_task_reminder ?W 0 (JStr ''ann@example.org'')
     (?T(''title'' \<mapsto> JStr ''OVERDUE: Write report'')) = Inr True"
    and ko: "send_task_reminder ?F 0 (JStr ''ann@example.org'')
     (?T(''title'' \<mapsto> JStr ''OVERDUE: Write report'')) = Inr False"
    by (simp_all add: pass_eval)
  have e: "dict_get ?ud ''email'' = JStr ''ann@example.org''" by (simp add: dict_get_def)
  have s0: "sent_reminders ?S = {||}" "reminder_sent_count ?S = 0"
    by (simp_all add: load_tasks_def start_state_def)
  note t1 = key_and_counter_follow_the_send[OF a1 a2(1) a3 a4 a5(1) a6 a7(1) a8 a9]
  note t2 = key_and_counter_follow_the_send[OF a1 a2(2) a3 a4 a5(2) a6 a7(2) a8 a9]
  show ?thesis
    using t1 t2 ok ko by (simp add: e heap s0 reminder_key_def)
qed

text \<open>
  C5. An exception raised while one task is processed is caught and does not stop the
  pass. No exception escapes \<open>check_task_reminders\<close>. A row whose due date does not
  parse, or that lacks its id, its owner id or its title, gets no mail. Every row that
  is due a reminder (\<open>mail_due\<close>) has its key in the dedup set already or gets a send
  attempt in this pass, whatever happened to the rows before it.
\<close>

theorem task_errors_do_not_stop_the_pass:
  "fst (check_task_reminders w sent) = Inr ()
    \<and> (db_query w = Inr rows \<and> j < length rows
          \<and> (isl (parse_due_date w (rows ! j)) \<or> (rows ! j) ''id'' = None
               \<or> (rows ! j) ''auth_users_id'' = None \<or> (rows ! j) ''title'' = None)
          \<longrightarrow> SendMail j k to addr d ok \<notin> set (trace (snd (check_task_reminders w sent))))
    \<and> (db_query w = Inr rows \<and> i < length rows \<and> mail_due w i (rows ! i) tid win
          \<longrightarrow> reminder_key tid win |\<in>| sent
              \<or> (\<exists>ev \<in> set (trace (snd (check_task_reminders w sent))).
                    mail_key ev = Some (reminder_key tid win)))"
proof (intro conjI impI)
  show "fst (check_task_reminders w sent) = Inr ()"
    by (simp add: check_task_reminders_def split: prod.splits sum.splits)
next
  assume a: "db_query w = Inr rows \<and> j < length rows
          \<and> (isl (parse_due_date w (rows ! j)) \<or> (rows ! j) ''id'' = None
               \<or> (rows ! j) ''auth_users_id'' = None \<or> (rows ! j) ''title'' = None)"
  then have q: "db_query w = Inr rows" by simp
  show "SendMail j k to addr d ok \<notin> set (trace (snd (check_task_reminders w sent)))"
  proof
    assume "SendMail j k to addr d ok \<in> set (trace (snd (check_task_reminders w sent)))"
    with pass_events_ok[OF q]
    have "event_ok w rows (length rows) (SendMail j k to addr d ok)" by blast
    then have "reaches_lookup w (rows ! j)" "mail_matches w rows j k to addr d ok"
      by (simp_all add: event_ok_def)
    with a show False by (auto simp: reaches_lookup_def mail_matches_def)
  qed
next
  assume a: "db_query w = Inr rows \<and> i < length rows \<and> mail_due w i (rows ! i) tid win"
  then have q: "db_query w = Inr rows" by simp
  from a pass_mails_done[OF q, of sent]
  show "reminder_key tid win |\<in>| sent
              \<or> (\<exists>ev \<in> set (trace (snd (check_task_reminders w sent))).
                    mail_key ev = Some (reminder_key tid win))"
    unfolding mails_done_def by blast
qed

theorem task_errors_do_not_stop_the_pass_witness:
  "db_query (sample_world [sample_task ''t0'' ''next tuesday'' ''todo'',
                           sample_task ''t1'' ''2024-05-01T13:00:00Z'' ''todo''])
     = Inr [sample_task ''t0'' ''next tuesday'' ''todo'',
            sample_task ''t1'' ''2024-05-01T13:00:00Z'' ''todo'']
   \<and> isl (parse_due_date (sample_world []) (sample_task ''t0'' ''next tuesday'' ''todo''))
   \<and> mail_due (sample_world [sample_task ''t0'' ''next tuesday'' ''todo'',
                           sample_task ''t1'' ''2024-05-01T13:00:00Z'' ''todo'']) 1
        (sample_task ''t1'' ''2024-05-01T13:00:00Z'' ''todo'') (JStr ''t1'') PreDue
   \<and> fst (check_task_reminders (sample_world [sample_task ''t0'' ''next tuesday'' ''todo'',
                           sample_task ''t1'' ''2024-05-01T13:00:00Z'' ''todo'']) {||}) = Inr ()
   \<and> SendMail 0 ''t0_1h'' (JStr ''ann@example.org'') 0
         (sample_task ''t0'' ''next tuesday'' ''todo'') True
       \<notin> set (trace (snd (check_task_reminders (sample_world [sample_task ''t0'' ''next tuesday'' ''todo'',
                           sample_task ''t1'' ''2024-05-01T13:00:00Z'' ''todo'']) {||})))
   \<and> (\<exists>ev \<in> set (trace (snd (check_task_reminders (sample_world [sample_task ''t0'' ''next tuesday'' ''todo'',
                           sample_task ''t1'' ''2024-05-01T13:00:00Z'' ''todo'']) {||}))).
          mail_key ev = Some (reminder_key (JStr ''t1'') PreDue))"
proof -
  let ?rows = "[sample_task ''t0'' ''next tuesday'' ''todo'',
                sample_task ''t1'' ''2024-05-01T13:00:00Z'' ''todo'']"
  have h: "db_query (sample_world ?rows) = Inr ?rows" by (simp add: sample_world_def)
  have bad: "isl (parse_due_date (sample_world ?rows) (?rows ! 0))"
    and bad': "isl (parse_due_date (sample_world []) (sample_task ''t0'' ''next tuesday'' ''todo''))"
    by (simp_all add: sample_world_def sample_task_def parse_due_date_def dict_item_def
          iso_sample_def replace_Z_def)
  have good: "mail_due (sample_world ?rows) 1 (?rows ! 1) (JStr ''t1'') PreDue"
    unfolding mail_due_def
    apply (rule exI[of _ "\<lparr>wall = 46800000000, tzinfo = None\<rparr>"])
    apply (rule exI[of _ "JStr ''u-1''"])
    apply (rule exI[of _ "[''email'' \<mapsto> JStr ''ann@example.org'']"])
    apply (simp add: pass_eval spec_in_window.simps)
    done
  then have good': "mail_due (sample_world ?rows) 1
        (sample_task ''t1'' ''2024-05-01T13:00:00Z'' ''todo'') (JStr ''t1'') PreDue"
    by simp
  note t = task_errors_do_not_stop_the_pass[where w = "sample_world ?rows" and sent = "{||}"
      and rows = ?rows and j = 0 and k = "''t0_1h''" and to = "JStr ''ann@example.org''" and addr = 0
      and d = "sample_task ''t0'' ''next tuesday'' ''todo''" and ok = True
      and i = 1 and tid = "JStr ''t1''" and win = PreDue]
  have "\<exists>ev \<in> set (trace (snd (check_task_reminders (sample_world ?rows) {||}))).
          mail_key ev = Some (reminder_key (JStr ''t1'') PreDue)"
    using t h good by simp
  moreover have "SendMail 0 ''t0_1h'' (JStr ''ann@example.org'') 0
         (sample_task ''t0'' ''next tuesday'' ''todo'') True
       \<notin> set (trace (snd (check_task_reminders (sample_world ?rows) {||})))"
    using t h bad by simp
  moreover have "fst (check_task_reminders (sample_world ?rows) {||}) = Inr ()"
    using t by blast
  ultimately show ?thesis using h bad' good' by blast
qed

text \<open>
  C6. After the loop of a pass over a non-empty task list the cleanup runs on the dedup
  set as the loop left it (the set the pass started with and the keys delivered in the
  pass): more than 1000 keys and the set is cleared, 1000 or fewer and it stays as it
  is, so that a completed pass ends with at most 1000 keys. After a clear, a task that
  is due a reminder in a later pass gets a send for its key again.
\<close>

theorem cleanup_after_the_loop:
  assumes "db_query w = Inr rows" "rows \<noteq> []"
  shows "(\<exists>s2. task_loop w 0 [0 ..< length rows]
                (load_tasks rows (emit (DbCall Query) (start_state sent))) = (Inr (), s2)
            \<and> sent_reminders s2
                = sent |\<union>| fset_of_list (delivered_keys (trace (snd (check_task_reminders w sent))))
            \<and> sent_reminders (snd (check_task_reminders w sent))
                = cleanup_old_reminders (sent_reminders s2)
            \<and> (1000 < fcard (sent_reminders s2)
                  \<longrightarrow> sent_reminders (snd (check_task_reminders w sent)) = {||})
            \<and> (fcard (sent_reminders s2) \<le> 1000
                  \<longrightarrow> sent_reminders (snd (check_task_reminders w sent)) = sent_reminders s2))
    \<and> fcard (sent_reminders (snd (check_task_reminders w sent))) \<le> 1000
    \<and> (\<forall>w2 rows2 i tid win.
          sent_reminders (snd (check_task_reminders w sent)) = {||}
          \<and> db_query w2 = Inr rows2 \<and> i < length rows2 \<and> mail_due w2 i (rows2 ! i) tid win
          \<longrightarrow> (\<exists>ev \<in> set (trace (snd (check_task_reminders w2
                                (sent_reminders (snd (check_task_reminders w sent)))))).
                 mail_key ev = Some (reminder_key tid win)))"
proof (cases rule: pass_cases[of w sent])
  case no_tasks
  with assms show ?thesis by auto
next
  case (looped rows' s2)
  with assms(1) have rows': "rows' = rows" by simp
  have acc: "sent_reminders s2 = sent |\<union>| fset_of_list (delivered_keys (trace s2))"
    using looped(4) by (simp add: pass_inv_def dedup_accounted_def)
  have fin: "snd (check_task_reminders w sent)
       = s2\<lparr>sent_reminders := cleanup_old_reminders (sent_reminders s2)\<rparr>"
    using looped(5) by simp
  have 1: "\<exists>s2. task_loop w 0 [0 ..< length rows]
                (load_tasks rows (emit (DbCall Query) (start_state sent))) = (Inr (), s2)
            \<and> sent_reminders s2
                = sent |\<union>| fset_of_list (delivered_keys (trace (snd (check_task_reminders w sent))))
            \<and> sent_reminders (snd (check_task_reminders w sent))
                = cleanup_old_reminders (sent_reminders s2)
            \<and> (1000 < fcard (sent_reminders s2)
                  \<longrightarrow> sent_reminders (snd (check_task_reminders w sent)) = {||})
            \<and> (fcard (sent_reminders s2) \<le> 1000
                  \<longrightarrow> sent_reminders (snd (check_task_reminders w sent)) = sent_reminders s2)"
    by (rule exI[of _ s2]) (use looped(3) rows' acc fin in \<open>simp add: cleanup_old_reminders_def\<close>)
  have 2: "fcard (sent_reminders (snd (check_task_reminders w sent))) \<le> 1000"
    using fin by (simp add: cleanup_old_reminders_def fcard_fempty)
  have 3: "\<exists>ev \<in> set (trace (snd (check_task_reminders w2
                                (sent_reminders (snd (check_task_reminders w sent)))))).
                 mail_key ev = Some (reminder_key tid win)"
    if "sent_reminders (snd (check_task_reminders w sent)) = {||}
          \<and> db_query w2 = Inr rows2 \<and> i < length rows2 \<and> mail_due w2 i (rows2 ! i) tid win"
    for w2 rows2 i tid win
  proof -
    from that have q: "db_query w2 = Inr rows2" by simp
    show ?thesis
      using pass_mails_done[OF q, of "{||}"] that unfolding mails_done_def by auto
  qed
  from 1 2 3 show ?thesis by blast
qed

theorem cleanup_after_the_loop_witness:
  "db_query (sample_world [sample_task ''t1'' ''2024-05-01T13:00:00Z'' ''completed''])
     = Inr [sample_task ''t1'' ''2024-05-01T13:00:00Z'' ''completed'']
   \<and> [sample_task ''t1'' ''2024-05-01T13:00:00Z'' ''completed''] \<noteq> []
   \<and> 1000 < fcard (many_keys 1001)
   \<and> sent_reminders (snd (check_task_reminders
        (sample_world [sample_task ''t1'' ''2024-05-01T13:00:00Z'' ''completed''])
        (many_keys 1001))) = {||}
   \<and> mail_due (sample_world [sample_task ''t1'' ''2024-05-01T13:00:00Z'' ''todo'']) 0
        (sample_task ''t1'' ''2024-05-01T13:00:00Z'' ''todo'') (JStr ''t1'') PreDue
   \<and> (\<exists>ev \<in> set (trace (snd (check_task_reminders
          (sample_world [sample_task ''t1'' ''2024-05-01T13:00:00Z'' ''todo''])
          (sent_reminders (snd (check_task_reminders
             (sample_world [sample_task ''t1'' ''2024-05-01T13:00:00Z'' ''completed''])
             (many_keys 1001))))))).
        mail_key ev = Some (reminder_key (JStr ''t1'') PreDue))"
proof -
  let ?rows = "[sample_task ''t1'' ''2024-05-01T13:00:00Z'' ''completed'']"
  let ?rows2 = "[sample_task ''t1'' ''2024-05-01T13:00:00Z'' ''todo'']"
  let ?s' = "snd (check_task_reminders (sample_world ?rows) (many_keys 1001))"
  have h1: "db_query (sample_world ?rows) = Inr ?rows" by (simp add: sample_world_def)
  have h2: "?rows \<noteq> []" by simp
  have big: "1000 < fcard (many_keys 1001)" by (simp add: fcard_many_keys)
  note c = cleanup_after_the_loop[OF h1 h2, of "many_keys 1001"]
  have cleared: "sent_reminders ?s' = {||}"
    by (simp add: pass_eval fcard_many_keys)
  have q2: "db_query (sample_world ?rows2) = Inr ?rows2" by (simp add: sample_world_def)
  have due: "mail_due (sample_world ?rows2) 0 (?rows2 ! 0) (JStr ''t1'') PreDue"
    unfolding mail_due_def
    apply (rule exI[of _ "\<lparr>wall = 46800000000, tzinfo = None\<rparr>"])
    apply (rule exI[of _ "JStr ''u-1''"])
    apply (rule exI[of _ "[''email'' \<mapsto> JStr ''ann@example.org'']"])
    apply (simp add: pass_eval spec_in_window.simps)
    done
  then have due': "mail_due (sample_world ?rows2) 0
        (sample_task ''t1'' ''2024-05-01T13:00:00Z'' ''todo'') (JStr ''t1'') PreDue"
    by simp
  have "\<exists>ev \<in> set (trace (snd (check_task_reminders (sample_world ?rows2) (sent_reminders ?s')))).
        mail_key ev = Some (reminder_key (JStr ''t1'') PreDue)"
  proof -
    have "sent_reminders ?s' = {||}
          \<and> db_query (sample_world ?rows2) = Inr ?rows2 \<and> 0 < length ?rows2
          \<and> mail_due (sample_world ?rows2) 0 (?rows2 ! 0) (JStr ''t1'') PreDue"
      using cleared q2 due by simp
    with c[THEN conjunct2, THEN conjunct2] show ?thesis by blast
  qed
  with h1 h2 big cleared due' show ?thesis by blast
qed

text \<open>
  C7. In the overdue window the mail is built from a copy of the task whose title has the
  prefix \<^verbatim>\<open>OVERDUE: \<close>. The copy is a new object (its address is none of the
  decoded rows'), every decoded task object is after the pass what the store
  returned, and the only call of the store adapter in the trace is the query.
\<close>

theorem overdue_mail_uses_a_copy:
  assumes "db_query w = Inr rows"
  shows "(\<forall>b < length rows. heap (snd (check_task_reminders w sent)) b = rows ! b)
    \<and> (\<forall>i k to addr d ok due.
          SendMail i k to addr d ok \<in> set (trace (snd (check_task_reminders w sent)))
          \<and> parse_due_date w (rows ! i) = Inr due
          \<and> spec_in_window Overdue (hours_until_due due (now w))
          \<longrightarrow> length rows \<le> addr
              \<and> (\<exists>title. (rows ! i) ''title'' = Some title
                    \<and> d = (rows ! i)(''title'' \<mapsto> JStr (''OVERDUE: '' @ py_str title))))
    \<and> (\<forall>op. DbCall op \<in> set (trace (snd (check_task_reminders w sent))) \<longrightarrow> op = Query)"
proof (intro conjI allI impI)
  fix b assume "b < length rows"
  with assms show "heap (snd (check_task_reminders w sent)) b = rows ! b"
    by (rule pass_heap)
next
  fix op assume "DbCall op \<in> set (trace (snd (check_task_reminders w sent)))"
  with pass_events_ok[OF assms] have "event_ok w rows (length rows) (DbCall op)" by blast
  then show "op = Query" by (simp add: event_ok_def)
next
  fix i k to addr d ok due
  assume a: "SendMail i k to addr d ok \<in> set (trace (snd (check_task_reminders w sent)))
          \<and> parse_due_date w (rows ! i) = Inr due
          \<and> spec_in_window Overdue (hours_until_due due (now w))"
  with pass_events_ok[OF assms] have "event_ok w rows (length rows) (SendMail i k to addr d ok)"
    by blast
  then have "mail_matches w rows i k to addr d ok" by (simp add: event_ok_def)
  then obtain due' tid win title where m:
    "parse_due_date w (rows ! i) = Inr due'" "(rows ! i) ''title'' = Some title"
    "spec_in_window win (hours_until_due due' (now w))"
    "win = Overdue \<longrightarrow> length rows \<le> addr
              \<and> d = (rows ! i)(''title'' \<mapsto> JStr (''OVERDUE: '' @ py_str title))"
    unfolding mail_matches_def by blast
  from a m(1) have "due' = due" by simp
  with a m(3) have "win = Overdue" by (auto dest: spec_in_window_unique)
  with m(2,4) show "length rows \<le> addr"
    and "\<exists>title. (rows ! i) ''title'' = Some title
                    \<and> d = (rows ! i)(''title'' \<mapsto> JStr (''OVERDUE: '' @ py_str title))"
    by simp_all
qed

theorem overdue_mail_uses_a_copy_witness:
  "db_query (sample_world [sample_task ''t2'' ''2024-05-01T11:00:00'' ''todo''])
     = Inr [sample_task ''t2'' ''2024-05-01T11:00:00'' ''todo'']
   \<and> SendMail 0 ''t2_overdue'' (JStr ''ann@example.org'') 1
        ((sample_task ''t2'' ''2024-05-01T11:00:00'' ''todo'')(''title'' \<mapsto> JStr ''OVERDUE: Write report''))
        True
      \<in> set (trace (snd (check_task_reminders
               (sample_world [sample_task ''t2'' ''2024-05-01T11:00:00'' ''todo'']) {||})))
   \<and> heap (snd (check_task_reminders
               (sample_world [sample_task ''t2'' ''2024-05-01T11:00:00'' ''todo'']) {||})) 0
      = sample_task ''t2'' ''2024-05-01T11:00:00'' ''todo''
   \<and> sample_task ''t2'' ''2024-05-01T11:00:00'' ''todo'' ''title'' = Some (JStr ''Write report'')"
proof -
  let ?rows = "[sample_task ''t2'' ''2024-05-01T11:00:00'' ''todo'']"
  have h: "db_query (sample_world ?rows) = Inr ?rows" by (simp add: sample_world_def)
  have m: "SendMail 0 ''t2_overdue'' (JStr ''ann@example.org'') 1
        ((sample_task ''t2'' ''2024-05-01T11:00:00'' ''todo'')(''title'' \<mapsto> JStr ''OVERDUE: Write report''))
        True
      \<in> set (trace (snd (check_task_reminders (sample_world ?rows) {||})))"
    by (simp add: pass_eval)
  have t: "sample_task ''t2'' ''2024-05-01T11:00:00'' ''todo'' ''title'' = Some (JStr ''Write report'')"
    by (simp add: sample_task_def)
  show ?thesis
    using h m t overdue_mail_uses_a_copy[OF h, of "{||}"] by simp
qed

text \<open>
  C8. The claim that the owner's address is resolved only after the task has matched a
  window and its key was found absent fails on the code: line 65 calls
  \<^verbatim>\<open>_get_user_email\<close> before the \<^verbatim>\<open>if\<close>/\<^verbatim>\<open>elif\<close> chain. A task due in
  five hours matches no window and still causes a lookup; so does a task whose key is
  already in the dedup set.
\<close>

theorem owner_email_resolved_after_classification_counterexample:
  "GetUserEmail 0 (JStr ''u-1'')
     \<in> set (trace (snd (check_task_reminders
              (sample_world [sample_task ''t3'' ''2024-05-01T17:00:00'' ''todo'']) {||})))
   \<and> parse_due_date (sample_world [sample_task ''t3'' ''2024-05-01T17:00:00'' ''todo''])
        (sample_task ''t3'' ''2024-05-01T17:00:00'' ''todo'')
      = Inr \<lparr>wall = 61200000000, tzinfo = None\<rparr>
   \<and> hours_until_due \<lparr>wall = 61200000000, tzinfo = None\<rparr>
        (now (sample_world [sample_task ''t3'' ''2024-05-01T17:00:00'' ''todo''])) = 5
   \<and> \<not> spec_in_window PreDue 5 \<and> \<not> spec_in_window DueNow 5 \<and> \<not> spec_in_window Overdue 5
   \<and> GetUserEmail 0 (JStr ''u-1'')
     \<in> set (trace (snd (check_task_reminders
              (sample_world [sample_task ''t1'' ''2024-05-01T13:00:00Z'' ''todo''])
              {|reminder_key (JStr ''t1'') PreDue|})))"
  by (simp add: pass_eval spec_in_window.simps reminder_key_def)

text \<open>
  C8, amended. The owner's address is resolved for exactly the tasks that pass the skip
  test, whose due date parses and that have an id and an owner id, before the
  classification into a window and whatever the dedup set holds.
\<close>

theorem owner_email_resolved_before_classification:
  assumes "db_query w = Inr rows"
  shows "GetUserEmail i uid \<in> set (trace (snd (check_task_reminders w sent)))
     \<longleftrightarrow> i < length rows \<and> \<not> skip_task (rows ! i) \<and> \<not> isl (parse_due_date w (rows ! i))
         \<and> (rows ! i) ''id'' \<noteq> None \<and> (rows ! i) ''auth_users_id'' = Some uid"
proof
  assume "GetUserEmail i uid \<in> set (trace (snd (check_task_reminders w sent)))"
  with pass_events_ok[OF assms] have "event_ok w rows (length rows) (GetUserEmail i uid)" by blast
  then show "i < length rows \<and> \<not> skip_task (rows ! i) \<and> \<not> isl (parse_due_date w (rows ! i))
         \<and> (rows ! i) ''id'' \<noteq> None \<and> (rows ! i) ''auth_users_id'' = Some uid"
    by (simp add: event_ok_def reaches_lookup_def)
next
  assume "i < length rows \<and> \<not> skip_task (rows ! i) \<and> \<not> isl (parse_due_date w (rows ! i))
         \<and> (rows ! i) ''id'' \<noteq> None \<and> (rows ! i) ''auth_users_id'' = Some uid"
  with pass_lookups_done[OF assms, of sent]
  show "GetUserEmail i uid \<in> set (trace (snd (check_task_reminders w sent)))"
    by (simp add: lookups_done_def reaches_lookup_def)
qed

theorem owner_email_resolved_before_classification_witness:
  "db_query (sample_world [sample_task ''t3'' ''2024-05-01T17:00:00'' ''todo''])
     = Inr [sample_task ''t3'' ''2024-05-01T17:00:00'' ''todo'']
   \<and> GetUserEmail 0 (JStr ''u-1'')
     \<in> set (trace (snd (check_task_reminders
              (sample_world [sample_task ''t3'' ''2024-05-01T17:00:00'' ''todo''])
              {|''t3_1h'', ''t3_due'', ''t3_overdue''|})))"
proof -
  let ?rows = "[sample_task ''t3'' ''2024-05-01T17:00:00'' ''todo'']"
  have h: "db_query (sample_world ?rows) = Inr ?rows" by (simp add: sample_world_def)
  have c: "0 < length ?rows \<and> \<not> skip_task (?rows ! 0)
         \<and> \<not> isl (parse_due_date (sample_world ?rows) (?rows ! 0))
         \<and> (?rows ! 0) ''id'' \<noteq> None \<and> (?rows ! 0) ''auth_users_id'' = Some (JStr ''u-1'')"
    by (simp add: sample_world_def sample_task_def skip_task_def parse_due_date_def dict_get_def
          dict_item_def iso_sample_def replace_Z_def)
  show ?thesis
    using h c owner_email_resolved_before_classification[OF h, of 0 "JStr ''u-1''"
        "{|''t3_1h'', ''t3_due'', ''t3_overdue''|}"]
    by blast
qed

text \<open>
  C9. The mail adapter never raises to its caller. \<open>send_task_reminder\<close> returns a
  boolean for every recipient and task (\<open>Inr\<close>, never \<open>Inl\<close>): \<open>True\<close> exactly when the
  credentials are configured, the message could be built from the task and the SMTP
  conversation went through; \<open>False\<close> on every failure.
\<close>

theorem send_task_reminder_never_raises:
  "send_task_reminder w i recipient task =
     Inr (\<not> falsy_setting (sender_email w) \<and> \<not> falsy_setting (sender_password w)
          \<and> \<not> isl (subject_line task)
          \<and> \<not> isl (body_due_date (fromisoformat w) task)
          \<and> \<not> isl (html_body task)
          \<and> smtp w i = None)"
  by (auto simp: send_task_reminder_def send_try_block_def split: sum.splits option.splits)

theorem send_task_reminder_never_raises_witness:
  "send_task_reminder (sample_world []) 0 (JStr ''ann@example.org'')
     (sample_task ''t1'' ''2024-05-01T13:00:00Z'' ''todo'') = Inr True
   \<and> send_task_reminder ((sample_world [])\<lparr>smtp := \<lambda>i. Some SMTPException\<rparr>) 0 (JStr ''ann@example.org'')
     (sample_task ''t1'' ''2024-05-01T13:00:00Z'' ''todo'') = Inr False
   \<and> send_task_reminder ((sample_world [])\<lparr>sender_password := Some ''''\<rparr>) 0 (JStr ''ann@example.org'')
     (sample_task ''t1'' ''2024-05-01T13:00:00Z'' ''todo'') = Inr False
   \<and> send_task_reminder (sample_world []) 0 (JStr ''ann@example.org'')
     ((sample_task ''t1'' ''2024-05-01T13:00:00Z'' ''todo'')(''priority'' := None)) = Inr False"
  apply (subst send_task_reminder_never_raises)
  apply (subst send_task_reminder_never_raises)
  apply (subst send_task_reminder_never_raises)
  apply (subst send_task_reminder_never_raises)
  apply (simp add: pass_eval)
  done

text \<open>
  C10. When the store fetch raises or returns no task, the pass returns without touching
  the dedup set and without running the cleanup: the set is as it was, also when it
  holds more than 1000 keys, and the only effect is the query itself.
\<close>

theorem failed_fetch_changes_nothing:
  assumes "(\<exists>e. db_query w = Inl e) \<or> db_query w = Inr []"
  shows "fst (check_task_reminders w sent) = Inr ()
     \<and> sent_reminders (snd (check_task_reminders w sent)) = sent
     \<and> trace (snd (check_task_reminders w sent)) = [DbCall Query]
     \<and> (1000 < fcard sent \<longrightarrow>
          sent_reminders (snd (check_task_reminders w sent)) \<noteq> cleanup_old_reminders sent)"
proof -
  have "check_task_reminders w sent = (Inr (), emit (DbCall Query) (start_state sent))"
    using assms by (auto simp: check_task_reminders_def check_try_block_def Let_def)
  moreover have "1000 < fcard sent \<Longrightarrow> sent \<noteq> {||}" by (auto simp: fcard_fempty)
  ultimately show ?thesis
    by (auto simp: emit_def start_state_def cleanup_old_reminders_def)
qed

theorem failed_fetch_changes_nothing_witness:
  "((\<exists>e. db_query ((sample_world [])\<lparr>db_query := Inl HTTPError\<rparr>) = Inl e)
      \<or> db_query ((sample_world [])\<lparr>db_query := Inl HTTPError\<rparr>) = Inr [])
   \<and> 1000 < fcard (many_keys 1001)
   \<and> sent_reminders (snd (check_task_reminders ((sample_world [])\<lparr>db_query := Inl HTTPError\<rparr>)
        (many_keys 1001))) = many_keys 1001
   \<and> sent_reminders (snd (check_task_reminders (sample_world []) (many_keys 1001))) = many_keys 1001"
proof -
  have h1: "(\<exists>e. db_query ((sample_world [])\<lparr>db_query := Inl HTTPError\<rparr>) = Inl e)
      \<or> db_query ((sample_world [])\<lparr>db_query := Inl HTTPError\<rparr>) = Inr []"
    by simp
  have h2: "(\<exists>e. db_query (sample_world []) = Inl e) \<or> db_query (sample_world []) = Inr []"
    by (simp add: sample_world_def)
  show ?thesis
    using h1 failed_fetch_changes_nothing[OF h1, of "many_keys 1001"]
      failed_fetch_changes_nothing[OF h2, of "many_keys 1001"]
    by (simp add: fcard_many_keys)
qed

end
